theory Spec2Isabelle
  imports Complex_Main "HOL-Library.Sublist" "HOL-Library.Multiset" "HOL-Library.AList"
begin

section \<open>Data model (src/models/schemas.py)\<close>

text \<open>
  Python strings are modelled as \<open>string\<close>, \<open>Optional[T]\<close> as \<open>T option\<close>, and a float as
  the real number that is its value; comparisons of floats are exact.  Where the code
  computes with floats, the rounding is a parameter of the model (the query scores) or
  the value is a parameter (the similarity); the regulatory confidences alone are exact
  products.  Field names carry the name of their class where two classes share a field
  name.
\<close>

datatype EntityType = COMPANY | SECTOR | REGULATOR | PERSON | EVENT

datatype ImpactType = DIRECT | SECTOR_WIDE | REGULATORY | SUPPLY_CHAIN

record Entity =
  entity_name :: string
  entity_type :: EntityType
  mentions :: int
  entity_context :: "string option"

record StockImpact =
  symbol :: string
  company_name :: string
  confidence :: real
  impact_type :: ImpactType
  reasoning :: "string option"

record NewsArticle =
  article_id :: "string option"
  title :: string
  content :: string
  source :: string
  url :: "string option"
  published_date :: int
  author :: "string option"
  entities :: "Entity list"
  stock_impacts :: "StockImpact list"
  embedding :: "real list option"
  is_duplicate :: bool
  duplicate_of :: "string option"

record UniqueStory =
  story_id :: string
  primary_article :: NewsArticle
  duplicate_articles :: "NewsArticle list"
  all_entities :: "Entity list"
  all_stock_impacts :: "StockImpact list"
  confidence_score :: real

record QueryResult =
  query_text :: string
  results :: "UniqueStory list"
  total_results :: nat
  processing_time :: real
  explanation :: "string option"

text \<open>The exceptions the modelled code raises.\<close>

datatype error = ValueError | ValidationError

section \<open>Strings: \<open>str.lower\<close>, \<open>in\<close>, \<open>str.split\<close>\<close>

text \<open>
  \<open>str.lower\<close> on ASCII text: the letters A to Z are mapped to a to z, every other
  character is kept.
\<close>

definition lower_char :: "char \<Rightarrow> char" where
  "lower_char c =
     (case map_of (zip ''ABCDEFGHIJKLMNOPQRSTUVWXYZ'' ''abcdefghijklmnopqrstuvwxyz'') c of
        Some l \<Rightarrow> l
      | None \<Rightarrow> c)"

definition lower :: "string \<Rightarrow> string" where
  "lower s = map lower_char s"

text \<open>
  Python's \<open>k in s\<close> on strings is \<^const>\<open>sublist\<close> \<open>k s\<close>: \<open>k\<close> occurs in \<open>s\<close> as a
  contiguous block.
\<close>

text \<open>
  \<open>str.split()\<close> without arguments: runs of whitespace separate the words, and no empty
  word is produced.  The whitespace characters are those of \<open>str.isspace\<close> below code
  point 256.
\<close>

definition isspace :: "char \<Rightarrow> bool" where
  "isspace c \<longleftrightarrow>
     c \<in> set [CHR 0x09, CHR 0x0A, CHR 0x0B, CHR 0x0C, CHR 0x0D, CHR 0x1C, CHR 0x1D, CHR 0x1E,
              CHR 0x1F, CHR '' '', CHR 0x85, CHR 0xA0]"

fun split_from :: "string \<Rightarrow> string \<Rightarrow> string list" where
  "split_from w [] = (if w = [] then [] else [w])"
| "split_from w (c # cs) =
     (if isspace c then (if w = [] then split_from [] cs else w # split_from [] cs)
      else split_from (w @ [c]) cs)"

definition split :: "string \<Rightarrow> string list" where
  "split s = split_from [] s"

section \<open>Deduplication agent (src/agents/deduplication_agent.py)\<close>

text \<open>
  \<open>EmbeddingGenerator.get_similarity\<close> (src/utils/embeddings.py): the cosine of two
  vectors, over the reals.  The embedding model returns vectors of one fixed length and
  \<open>np.dot\<close> is defined on vectors of equal length only; a zero vector makes numpy return
  \<open>nan\<close>.  The function is used below at non-zero vectors of equal length.  The agent
  itself is modelled for an arbitrary similarity function \<open>sim\<close>.
\<close>

definition dot :: "real list \<Rightarrow> real list \<Rightarrow> real" where
  "dot v w = sum_list (map2 (*) v w)"

definition get_similarity :: "real list \<Rightarrow> real list \<Rightarrow> real" where
  "get_similarity v w = dot v w / (sqrt (dot v v) * sqrt (dot w w))"

text \<open>The agent's state: the threshold and the list of processed articles.\<close>

record DeduplicationAgent =
  threshold :: real
  processed_articles :: "NewsArticle list"

definition calculate_similarity ::
  "(real list \<Rightarrow> real list \<Rightarrow> real) \<Rightarrow> NewsArticle \<Rightarrow> NewsArticle \<Rightarrow> error + real" where
  "calculate_similarity sim article1 article2 =
     (case embedding article1 of
        None \<Rightarrow> Inl ValueError
      | Some v \<Rightarrow>
          (case embedding article2 of
             None \<Rightarrow> Inl ValueError
           | Some w \<Rightarrow> Inr (sim v w)))"

text \<open>
  The loop of \<open>find_duplicates\<close> over the processed articles, on the triple
  \<open>(max_similarity, duplicate_of, similar_articles)\<close>.
\<close>

fun find_loop ::
  "(real list \<Rightarrow> real list \<Rightarrow> real) \<Rightarrow> real \<Rightarrow> NewsArticle \<Rightarrow> NewsArticle list \<Rightarrow>
   real \<times> string option \<times> string option list \<Rightarrow>
   error + (real \<times> string option \<times> string option list)" where
  "find_loop sim thr new_article [] acc = Inr acc"
| "find_loop sim thr new_article (existing # rest) (max_similarity, dup_of, similar_articles) =
     (case calculate_similarity sim new_article existing of
        Inl e \<Rightarrow> Inl e
      | Inr similarity \<Rightarrow>
          find_loop sim thr new_article rest
            (if similarity > max_similarity then similarity else max_similarity,
             if similarity > max_similarity then article_id existing else dup_of,
             if similarity \<ge> thr then similar_articles @ [article_id existing]
             else similar_articles))"

definition find_duplicates ::
  "(real list \<Rightarrow> real list \<Rightarrow> real) \<Rightarrow> DeduplicationAgent \<Rightarrow> NewsArticle \<Rightarrow>
   error + (bool \<times> string option \<times> real \<times> string option list)" where
  "find_duplicates sim agent new_article =
     (if processed_articles agent = [] then Inr (False, None, 0, [])
      else
        (case find_loop sim (threshold agent) new_article (processed_articles agent) (0, None, []) of
           Inl e \<Rightarrow> Inl e
         | Inr (max_similarity, dup_of, similar_articles) \<Rightarrow>
             Inr (max_similarity \<ge> threshold agent, dup_of, max_similarity, similar_articles)))"

text \<open>
  \<open>DeduplicationAgent.process\<close>: the outcome (the exception raised, or the article with
  its duplicate fields set) together with the agent's state afterwards.
\<close>

definition dedup_process ::
  "(real list \<Rightarrow> real list \<Rightarrow> real) \<Rightarrow> DeduplicationAgent \<Rightarrow> NewsArticle \<Rightarrow>
   (error + NewsArticle) \<times> DeduplicationAgent" where
  "dedup_process sim agent article =
     (if embedding article = None then (Inl ValueError, agent)
      else
        (case find_duplicates sim agent article of
           Inl e \<Rightarrow> (Inl e, agent)
         | Inr (is_dup, dup_of, similarity, all_similar) \<Rightarrow>
             (let article' =
                    (if is_dup then article\<lparr>is_duplicate := True, duplicate_of := dup_of\<rparr>
                     else article\<lparr>is_duplicate := False, duplicate_of := None\<rparr>)
              in (Inr article',
                  agent\<lparr>processed_articles := processed_articles agent @ [article']\<rparr>))))"





subsection \<open>Sample articles\<close>

text \<open>Four articles with unit-length embeddings, used to evaluate the agent.\<close>

definition artA :: NewsArticle where
  "artA = \<lparr>article_id = Some ''a'', title = ''A'', content = ''x'', source = ''s'', url = None,
     published_date = 0, author = None, entities = [], stock_impacts = [],
     embedding = Some [1, 0], is_duplicate = False, duplicate_of = None\<rparr>"

definition artB :: NewsArticle where
  "artB = \<lparr>article_id = Some ''b'', title = ''B'', content = ''x'', source = ''s'', url = None,
     published_date = 0, author = None, entities = [], stock_impacts = [],
     embedding = Some [4/5, 3/5], is_duplicate = False, duplicate_of = None\<rparr>"




section \<open>Stock impact agent (src/agents/stock_impact_agent.py)\<close>

text \<open>
  The two static tables, as association lists in the order of the dictionary literals
  (a Python dictionary iterates in insertion order; no key occurs twice).
\<close>

definition company_to_symbol :: "(string \<times> string \<times> string) list" where
  "company_to_symbol =
    [(''hdfc bank'', ''HDFCBANK'', ''HDFC Bank Ltd''),
     (''hdfc'', ''HDFCBANK'', ''HDFC Bank Ltd''),
     (''icici bank'', ''ICICIBANK'', ''ICICI Bank Ltd''),
     (''icici'', ''ICICIBANK'', ''ICICI Bank Ltd''),
     (''sbi'', ''SBIN'', ''State Bank of India''),
     (''state bank'', ''SBIN'', ''State Bank of India''),
     (''axis bank'', ''AXISBANK'', ''Axis Bank Ltd''),
     (''kotak mahindra'', ''KOTAKBANK'', ''Kotak Mahindra Bank''),
     (''kotak'', ''KOTAKBANK'', ''Kotak Mahindra Bank''),
     (''tcs'', ''TCS'', ''Tata Consultancy Services''),
     (''tata consultancy'', ''TCS'', ''Tata Consultancy Services''),
     (''infosys'', ''INFY'', ''Infosys Ltd''),
     (''wipro'', ''WIPRO'', ''Wipro Ltd''),
     (''tech mahindra'', ''TECHM'', ''Tech Mahindra Ltd''),
     (''hcl'', ''HCLTECH'', ''HCL Technologies''),
     (''hcl technologies'', ''HCLTECH'', ''HCL Technologies''),
     (''maruti'', ''MARUTI'', ''Maruti Suzuki India''),
     (''maruti suzuki'', ''MARUTI'', ''Maruti Suzuki India''),
     (''tata motors'', ''TATAMOTORS'', ''Tata Motors Ltd''),
     (''mahindra'', ''M&M'', ''Mahindra & Mahindra''),
     (''bajaj auto'', ''BAJAJ-AUTO'', ''Bajaj Auto Ltd''),
     (''bajaj finance'', ''BAJFINANCE'', ''Bajaj Finance Ltd''),
     (''hdfc life'', ''HDFCLIFE'', ''HDFC Life Insurance''),
     (''reliance'', ''RELIANCE'', ''Reliance Industries''),
     (''bharti airtel'', ''BHARTIARTL'', ''Bharti Airtel''),
     (''airtel'', ''BHARTIARTL'', ''Bharti Airtel''),
     (''itc'', ''ITC'', ''ITC Ltd''),
     (''hul'', ''HINDUNILVR'', ''Hindustan Unilever''),
     (''nestle'', ''NESTLEIND'', ''Nestle India''),
     (''britannia'', ''BRITANNIA'', ''Britannia Industries''),
     (''indigo'', ''INDIGO'', ''InterGlobe Aviation''),
     (''persistent systems'', ''PERSISTENT'', ''Persistent Systems''),
     (''tejas networks'', ''TEJASNET'', ''Tejas Networks''),
     (''patel engineering'', ''PATELENG'', ''Patel Engineering'')]"

definition sector_to_stocks :: "(string \<times> (string \<times> string \<times> real) list) list" where
  "sector_to_stocks =
    [(''banking'',
        [(''HDFCBANK'', ''HDFC Bank'', 0.75),
         (''ICICIBANK'', ''ICICI Bank'', 0.75),
         (''SBIN'', ''State Bank of India'', 0.75),
         (''AXISBANK'', ''Axis Bank'', 0.70),
         (''KOTAKBANK'', ''Kotak Mahindra Bank'', 0.70)]),
     (''financial services'',
        [(''HDFCBANK'', ''HDFC Bank'', 0.70),
         (''BAJFINANCE'', ''Bajaj Finance'', 0.75),
         (''HDFCLIFE'', ''HDFC Life'', 0.70)]),
     (''it'',
        [(''TCS'', ''Tata Consultancy Services'', 0.75),
         (''INFY'', ''Infosys'', 0.75),
         (''WIPRO'', ''Wipro'', 0.70),
         (''TECHM'', ''Tech Mahindra'', 0.70),
         (''HCLTECH'', ''HCL Technologies'', 0.70)]),
     (''information technology'',
        [(''TCS'', ''Tata Consultancy Services'', 0.75),
         (''INFY'', ''Infosys'', 0.75),
         (''WIPRO'', ''Wipro'', 0.70)]),
     (''it services'',
        [(''TCS'', ''Tata Consultancy Services'', 0.75),
         (''INFY'', ''Infosys'', 0.75),
         (''WIPRO'', ''Wipro'', 0.70)]),
     (''automobile'',
        [(''MARUTI'', ''Maruti Suzuki'', 0.75),
         (''TATAMOTORS'', ''Tata Motors'', 0.75),
         (''M&M'', ''Mahindra & Mahindra'', 0.70)]),
     (''auto'',
        [(''MARUTI'', ''Maruti Suzuki'', 0.75),
         (''TATAMOTORS'', ''Tata Motors'', 0.75)]),
     (''nbfc'',
        [(''BAJFINANCE'', ''Bajaj Finance'', 0.80)]),
     (''insurance'',
        [(''HDFCLIFE'', ''HDFC Life'', 0.75)]),
     (''telecom'',
        [(''RELIANCE'', ''Reliance Industries'', 0.70),
         (''BHARTIARTL'', ''Bharti Airtel'', 0.75)]),
     (''fmcg'',
        [(''ITC'', ''ITC'', 0.70),
         (''HINDUNILVR'', ''Hindustan Unilever'', 0.70),
         (''BRITANNIA'', ''Britannia Industries'', 0.65)])]"

text \<open>
  The partial-match loop of \<open>map_company_to_stock\<close>: the first table entry, in table
  order, whose key occurs in the lower-cased name or in which the lower-cased name
  occurs.
\<close>

fun partial_match ::
  "(string \<times> string \<times> string) list \<Rightarrow> string \<Rightarrow> (string \<times> string) option" where
  "partial_match [] company_lower = None"
| "partial_match ((key, symb, full_name) # rest) company_lower =
     (if sublist key company_lower \<or> sublist company_lower key then Some (symb, full_name)
      else partial_match rest company_lower)"

definition map_company_to_stock :: "string \<Rightarrow> StockImpact" where
  "map_company_to_stock name =
     (let company_lower = lower name in
      case map_of company_to_symbol company_lower of
        Some (symb, full_name) \<Rightarrow>
          \<lparr>symbol = symb, company_name = full_name, confidence = 1.0, impact_type = DIRECT,
           reasoning = Some (''Direct mention of '' @ name @ '' in article'')\<rparr>
      | None \<Rightarrow>
          (case partial_match company_to_symbol company_lower of
             Some (symb, full_name) \<Rightarrow>
               \<lparr>symbol = symb, company_name = full_name, confidence = 0.95,
                impact_type = DIRECT, reasoning = Some (''Partial match for '' @ name)\<rparr>
           | None \<Rightarrow>
               \<lparr>symbol = ''UNKNOWN'', company_name = name, confidence = 0.50,
                impact_type = DIRECT,
                reasoning = Some (''Company '' @ name @ '' not in mapping database'')\<rparr>))"

definition map_sector_to_stocks :: "string \<Rightarrow> StockImpact list" where
  "map_sector_to_stocks sector_name =
     (case map_of sector_to_stocks (lower sector_name) of
        Some stocks \<Rightarrow>
          map (\<lambda>(symb, name, conf).
                 \<lparr>symbol = symb, company_name = name, confidence = conf,
                  impact_type = SECTOR_WIDE,
                  reasoning = Some (''Sector-wide '' @ sector_name @ '' news'')\<rparr>) stocks
      | None \<Rightarrow> [])"

text \<open>
  The impacts of a regulator: the entries of one sector with their base confidence
  scaled by \<open>factor\<close> (the exact product; the source rounds it to a double).
\<close>

definition regulatory_impacts :: "string \<Rightarrow> real \<Rightarrow> string \<Rightarrow> StockImpact list" where
  "regulatory_impacts sector factor why =
     (case map_of sector_to_stocks sector of
        Some stocks \<Rightarrow>
          map (\<lambda>(symb, name, base_conf).
                 \<lparr>symbol = symb, company_name = name, confidence = base_conf * factor,
                  impact_type = REGULATORY, reasoning = Some why\<rparr>) stocks
      | None \<Rightarrow> [])"

definition map_regulator_to_stocks :: "string \<Rightarrow> StockImpact list" where
  "map_regulator_to_stocks regulator_name =
     (let regulator_lower = lower regulator_name in
      if sublist ''rbi'' regulator_lower \<or> sublist ''reserve bank'' regulator_lower
      then regulatory_impacts ''banking'' 0.85 ''RBI regulatory news affects banking sector''
      else if sublist ''sebi'' regulator_lower
      then regulatory_impacts ''financial services'' 0.75 ''SEBI regulatory news''
      else if sublist ''irdai'' regulator_lower \<or> sublist ''insurance regulatory'' regulator_lower
      then regulatory_impacts ''insurance'' 0.80 ''IRDAI regulatory news affects insurance sector''
      else [])"

text \<open>The loop of \<open>process\<close> over the entities, on the list \<open>stock_impacts\<close>.\<close>

fun map_entities :: "Entity list \<Rightarrow> StockImpact list \<Rightarrow> StockImpact list" where
  "map_entities [] impacts = impacts"
| "map_entities (e # rest) impacts =
     map_entities rest
       (case entity_type e of
          COMPANY \<Rightarrow> impacts @ [map_company_to_stock (entity_name e)]
        | SECTOR \<Rightarrow> impacts @ map_sector_to_stocks (entity_name e)
        | REGULATOR \<Rightarrow> impacts @ map_regulator_to_stocks (entity_name e)
        | _ \<Rightarrow> impacts)"

text \<open>
  The merge by symbol, written twice in the source with the same text (in
  \<open>StockImpactAnalysisAgent.process\<close> and in \<open>StorageIndexingAgent.create_unique_story\<close>):
  a dictionary from symbol to impact, filled in input order.  Assigning to a key keeps
  the key's position, which is what \<^const>\<open>AList.update\<close> does.
\<close>

fun merge_loop ::
  "StockImpact list \<Rightarrow> (string \<times> StockImpact) list \<Rightarrow> (string \<times> StockImpact) list" where
  "merge_loop [] unique_impacts = unique_impacts"
| "merge_loop (impact # rest) unique_impacts =
     merge_loop rest
       (case map_of unique_impacts (symbol impact) of
          None \<Rightarrow> AList.update (symbol impact) impact unique_impacts
        | Some kept \<Rightarrow>
            if confidence impact > confidence kept
            then AList.update (symbol impact) impact unique_impacts
            else unique_impacts)"

definition merge_by_symbol :: "StockImpact list \<Rightarrow> StockImpact list" where
  "merge_by_symbol impacts = map snd (merge_loop impacts [])"


section \<open>Storage agent (src/agents/storage_agent.py)\<close>

text \<open>The entity filter of \<open>create_unique_story\<close>, with its set \<open>seen\<close> of keys.\<close>

fun unique_entities_loop ::
  "Entity list \<Rightarrow> (string \<times> EntityType) set \<Rightarrow> Entity list \<Rightarrow> Entity list" where
  "unique_entities_loop [] seen unique_entities = unique_entities"
| "unique_entities_loop (e # rest) seen unique_entities =
     (let key = (lower (entity_name e), entity_type e) in
      if key \<notin> seen then unique_entities_loop rest (insert key seen) (unique_entities @ [e])
      else unique_entities_loop rest seen unique_entities)"

text \<open>
  \<open>UniqueStory.id\<close> is a required string: constructing the story from a primary article
  without an id fails validation.
\<close>

definition create_unique_story :: "NewsArticle \<Rightarrow> NewsArticle list \<Rightarrow> error + UniqueStory" where
  "create_unique_story primary duplicates =
     (let all_ents = entities primary @ concat (map entities duplicates);
          unique_entities = unique_entities_loop all_ents {} [];
          all_impacts = stock_impacts primary @ concat (map stock_impacts duplicates);
          unique_impacts = merge_by_symbol all_impacts
      in case article_id primary of
           None \<Rightarrow> Inl ValidationError
         | Some i \<Rightarrow>
             Inr \<lparr>story_id = i, primary_article = primary, duplicate_articles = duplicates,
                  all_entities = unique_entities, all_stock_impacts = unique_impacts,
                  confidence_score = 1.0\<rparr>)"

text \<open>
  The loop of \<open>StorageIndexingAgent.process\<close> over the batch \<open>articles\<close>, with the set
  \<open>processed_ids\<close> and the list \<open>unique_stories\<close> built so far.
\<close>

fun storage_loop ::
  "NewsArticle list \<Rightarrow> NewsArticle list \<Rightarrow> string option set \<Rightarrow> UniqueStory list \<Rightarrow>
   error + UniqueStory list" where
  "storage_loop articles [] processed_ids unique_stories = Inr unique_stories"
| "storage_loop articles (article # rest) processed_ids unique_stories =
     (if article_id article \<in> processed_ids
      then storage_loop articles rest processed_ids unique_stories
      else if is_duplicate article
      then storage_loop articles rest (insert (article_id article) processed_ids) unique_stories
      else
        (let duplicates =
               filter (\<lambda>other. is_duplicate other \<and> duplicate_of other = article_id article)
                 articles
         in case create_unique_story article duplicates of
              Inl e \<Rightarrow> Inl e
            | Inr story \<Rightarrow>
                storage_loop articles rest
                  (insert (article_id article) (processed_ids \<union> set (map article_id duplicates)))
                  (unique_stories @ [story])))"

text \<open>
  The agent's state is its list of stories; \<open>process\<close> appends the new stories to it.
  (Writing the JSON file is not modelled; its errors are caught in the source.)
\<close>

record StorageIndexingAgent =
  unique_stories :: "UniqueStory list"

definition storage_process ::
  "StorageIndexingAgent \<Rightarrow> NewsArticle list \<Rightarrow>
   (error + UniqueStory list) \<times> StorageIndexingAgent" where
  "storage_process agent articles =
     (case storage_loop articles articles {} [] of
        Inl e \<Rightarrow> (Inl e, agent)
      | Inr stories \<Rightarrow>
          (Inr stories, agent\<lparr>unique_stories := unique_stories agent @ stories\<rparr>))"

subsection \<open>Sample impacts\<close>





section \<open>Predicates used to state the merge\<close>

text \<open>
  \<open>first_max xs r\<close>: \<open>r\<close> occurs in \<open>xs\<close> at a position before which every impact of the same
  symbol has a strictly lower confidence and after which none has a higher one.
\<close>

definition first_max :: "StockImpact list \<Rightarrow> StockImpact \<Rightarrow> bool" where
  "first_max xs r \<longleftrightarrow>
     (\<exists>ys zs. xs = ys @ r # zs
        \<and> (\<forall>y\<in>set ys. symbol y = symbol r \<longrightarrow> confidence y < confidence r)
        \<and> (\<forall>z\<in>set zs. symbol z = symbol r \<longrightarrow> confidence z \<le> confidence r))"


subsection \<open>A sample article with entities\<close>


section \<open>Query agent (src/agents/query_agent.py)\<close>

definition company_keywords :: "(string \<times> string) list" where
  "company_keywords =
    [(''hdfc'', ''HDFCBANK''),
     (''hdfc bank'', ''HDFCBANK''),
     (''icici'', ''ICICIBANK''),
     (''icici bank'', ''ICICIBANK''),
     (''sbi'', ''SBIN''),
     (''tcs'', ''TCS''),
     (''infosys'', ''INFY''),
     (''wipro'', ''WIPRO''),
     (''bajaj finance'', ''BAJFINANCE''),
     (''bajaj'', ''BAJFINANCE''),
     (''reliance'', ''RELIANCE'')]"

definition sector_keywords :: "(string \<times> string) list" where
  "sector_keywords =
    [(''banking'', ''banking''),
     (''bank'', ''banking''),
     (''it'', ''information technology''),
     (''tech'', ''technology''),
     (''auto'', ''automobile''),
     (''finance'', ''financial services''),
     (''nbfc'', ''nbfc'')]"

text \<open>
  The two extraction loops of \<open>parse_query\<close>: every table entry whose keyword occurs in
  the lower-cased query contributes its value, in table order.
\<close>

fun extract_matches :: "(string \<times> string) list \<Rightarrow> string \<Rightarrow> string list \<Rightarrow> string list" where
  "extract_matches [] query_lower found = found"
| "extract_matches ((keyword, v) # rest) query_lower found =
     extract_matches rest query_lower (if sublist keyword query_lower then found @ [v] else found)"

text \<open>The keyword loop of \<open>parse_query\<close> over the words of the lower-cased query.\<close>

fun keyword_loop :: "string list \<Rightarrow> string list \<Rightarrow> string list" where
  "keyword_loop [] keywords = keywords"
| "keyword_loop (word # rest) keywords =
     keyword_loop rest
       (if length word > 3 \<and> word \<notin> set [''news'', ''update'', ''latest'', ''recent'']
        then keywords @ [word] else keywords)"

definition parse_query :: "string \<Rightarrow> string list \<times> string list \<times> string list" where
  "parse_query query =
     (let query_lower = lower query;
          companies = extract_matches company_keywords query_lower [];
          sectors = extract_matches sector_keywords query_lower [];
          query_words = split query_lower;
          keywords = keyword_loop query_words []
      in (companies, sectors, keywords))"

text \<open>
  Floating point.  A Python float is a double, and its value is a real number.  The sum
  and the product of two doubles are the exact result rounded to a double, and a decimal
  literal denotes the double nearest to it.  The rounding function \<open>rd\<close> is a parameter
  of the model: it is applied after every addition and multiplication and to every
  literal other than \<open>0.0\<close> and \<open>1.0\<close>, which are doubles.  Comparisons of doubles are exact.
\<close>

definition fl_add :: "(real \<Rightarrow> real) \<Rightarrow> real \<Rightarrow> real \<Rightarrow> real" where
  "fl_add rd x y = rd (x + y)"

definition fl_mul :: "(real \<Rightarrow> real) \<Rightarrow> real \<Rightarrow> real \<Rightarrow> real" where
  "fl_mul rd x y = rd (x * y)"

text \<open>The rounding that rounds nothing: exact arithmetic.\<close>

definition exact :: "real \<Rightarrow> real" where
  "exact x = x"

text \<open>
  The scoring loops of \<open>search_by_query\<close>.  The inner loops stop at the first match
  (\<open>break\<close>).
\<close>

fun company_loop :: "(real \<Rightarrow> real) \<Rightarrow> StockImpact list \<Rightarrow> string \<Rightarrow> real \<Rightarrow> real" where
  "company_loop rd [] company relevance = relevance"
| "company_loop rd (impact # rest) company relevance =
     (if symbol impact = company
      then fl_add rd relevance (fl_mul rd 1.0 (confidence impact))
      else company_loop rd rest company relevance)"

fun companies_loop ::
  "(real \<Rightarrow> real) \<Rightarrow> string list \<Rightarrow> StockImpact list \<Rightarrow> real \<Rightarrow> real" where
  "companies_loop rd [] impacts relevance = relevance"
| "companies_loop rd (company # rest) impacts relevance =
     companies_loop rd rest impacts (company_loop rd impacts company relevance)"

fun sector_loop :: "(real \<Rightarrow> real) \<Rightarrow> Entity list \<Rightarrow> string \<Rightarrow> real \<Rightarrow> real" where
  "sector_loop rd [] sector relevance = relevance"
| "sector_loop rd (entity # rest) sector relevance =
     (if sublist sector (lower (entity_name entity)) then fl_add rd relevance (rd 0.7)
      else sector_loop rd rest sector relevance)"

fun sectors_loop :: "(real \<Rightarrow> real) \<Rightarrow> string list \<Rightarrow> Entity list \<Rightarrow> real \<Rightarrow> real" where
  "sectors_loop rd [] ents relevance = relevance"
| "sectors_loop rd (sector # rest) ents relevance =
     sectors_loop rd rest ents (sector_loop rd ents sector relevance)"

fun keywords_score ::
  "(real \<Rightarrow> real) \<Rightarrow> string list \<Rightarrow> string \<Rightarrow> string \<Rightarrow> real \<Rightarrow> real" where
  "keywords_score rd [] title_lower content_lower relevance = relevance"
| "keywords_score rd (keyword # rest) title_lower content_lower relevance =
     keywords_score rd rest title_lower content_lower
       (if sublist keyword title_lower then fl_add rd relevance (rd 0.5)
        else if sublist keyword content_lower then fl_add rd relevance (rd 0.3)
        else relevance)"

text \<open>The body of the loop over the stories: the relevance accumulated for one story.\<close>

definition story_relevance ::
  "(real \<Rightarrow> real) \<Rightarrow> string list \<Rightarrow> string list \<Rightarrow> string list \<Rightarrow> bool \<Rightarrow> UniqueStory \<Rightarrow>
   real" where
  "story_relevance rd companies sectors keywords include_sector_news story =
     (let r1 = companies_loop rd companies (all_stock_impacts story) 0;
          r2 = (if include_sector_news then sectors_loop rd sectors (all_entities story) r1
                else r1);
          title_lower = lower (title (primary_article story));
          content_lower = lower (content (primary_article story))
      in keywords_score rd keywords title_lower content_lower r2)"

fun score_stories ::
  "(UniqueStory \<Rightarrow> real) \<Rightarrow> real \<Rightarrow> UniqueStory list \<Rightarrow> (UniqueStory \<times> real) list \<Rightarrow>
   (UniqueStory \<times> real) list" where
  "score_stories rel min_relevance_score [] res = res"
| "score_stories rel min_relevance_score (story # rest) res =
     score_stories rel min_relevance_score rest
       (if rel story \<ge> min_relevance_score then res @ [(story, rel story)] else res)"

text \<open>
  \<open>results[:limit]\<close>: the first \<open>limit\<close> elements, and for a negative \<open>limit\<close> all but the
  last \<open>-limit\<close> elements.
\<close>

definition slice_to :: "int \<Rightarrow> 'a list \<Rightarrow> 'a list" where
  "slice_to limit xs =
     (if limit \<ge> 0 then take (nat limit) xs else take (length xs - nat (- limit)) xs)"

text \<open>
  \<open>results.sort(key=lambda x: x[1], reverse=True)\<close>: Python's sort is stable, also with
  \<open>reverse=True\<close>; it is modelled by the stable insertion sort on the negated score.
  The stories searched are those of the storage agent.
\<close>

definition search_by_query ::
  "(real \<Rightarrow> real) \<Rightarrow> StorageIndexingAgent \<Rightarrow> string \<Rightarrow> int \<Rightarrow> bool \<Rightarrow> real \<Rightarrow>
   (UniqueStory \<times> real) list" where
  "search_by_query rd storage query limit include_sector_news min_relevance_score =
     (case parse_query query of
        (companies, sectors, keywords) \<Rightarrow>
          slice_to limit
            (sort_key (\<lambda>x. - snd x)
               (score_stories (story_relevance rd companies sectors keywords include_sector_news)
                  min_relevance_score (unique_stories storage) [])))"

text \<open>
  The construction \<open>QueryResult(query=..., results=..., total_results=...,
  processing_time=..., expansion_applied=...)\<close>.  The class \<open>QueryResult\<close> declares the
  fields \<open>query\<close>, \<open>results\<close>, \<open>total_results\<close>, \<open>processing_time\<close> and \<open>explanation\<close> and no
  configuration of its own, so the keyword \<open>expansion_applied\<close> is an extra argument,
  which the model class ignores; \<open>explanation\<close> takes its default.
\<close>

definition QueryResult_init ::
  "string \<Rightarrow> UniqueStory list \<Rightarrow> nat \<Rightarrow> real \<Rightarrow> bool \<Rightarrow> QueryResult" where
  "QueryResult_init query res n elapsed expansion_applied =
     \<lparr>query_text = query, results = res, total_results = n, processing_time = elapsed,
      explanation = None\<rparr>"

text \<open>
  \<open>QueryProcessingAgent.process\<close>; \<open>elapsed\<close> is the wall-clock time measured around the
  call.
\<close>

definition query_process ::
  "(real \<Rightarrow> real) \<Rightarrow> StorageIndexingAgent \<Rightarrow> string \<Rightarrow> int \<Rightarrow> bool \<Rightarrow> real \<Rightarrow> real \<Rightarrow>
   QueryResult" where
  "query_process rd storage query limit include_sector_news min_relevance_score elapsed =
     (case parse_query query of
        (companies, sectors, keywords) \<Rightarrow>
          (let res = search_by_query rd storage query limit include_sector_news
                       min_relevance_score
           in QueryResult_init query (map fst res) (length res) elapsed
                (include_sector_news \<and> length sectors > 0)))"

text \<open>
  The terms of the relevance as C5 words them (entity names compared lower-cased), in
  the order in which they are added: one per parsed company whose symbol has an
  impact, one per parsed sector that occurs in an entity name, one per keyword that
  occurs in the title or the content.  The sector terms do not depend on
  \<open>include_sector_news\<close>.
\<close>

definition relevance_terms ::
  "(real \<Rightarrow> real) \<Rightarrow> string list \<Rightarrow> string list \<Rightarrow> string list \<Rightarrow> UniqueStory \<Rightarrow> real list" where
  "relevance_terms rd companies sectors keywords story =
     concat (map (\<lambda>c. case find (\<lambda>i. symbol i = c) (all_stock_impacts story) of
                         Some i \<Rightarrow> [fl_mul rd 1.0 (confidence i)] | None \<Rightarrow> []) companies)
     @ concat (map (\<lambda>s. if \<exists>e\<in>set (all_entities story). sublist s (lower (entity_name e))
                         then [rd 0.7] else []) sectors)
     @ concat (map (\<lambda>k. if sublist k (lower (title (primary_article story))) then [rd 0.5]
                         else if sublist k (lower (content (primary_article story)))
                         then [rd 0.3] else []) keywords)"

subsection \<open>Sample stories\<close>

definition artM :: NewsArticle where
  "artM = \<lparr>article_id = Some ''m'', title = ''Maruti sales rise'',
     content = ''Car sales rose in May.'', source = ''s'', url = None,
     published_date = 0, author = None,
     entities = [\<lparr>entity_name = ''Automobile'', entity_type = SECTOR, mentions = 1,
                   entity_context = None\<rparr>],
     stock_impacts = [\<lparr>symbol = ''MARUTI'', company_name = ''Maruti Suzuki'', confidence = 0.75,
                       impact_type = SECTOR_WIDE, reasoning = None\<rparr>],
     embedding = Some [1, 0], is_duplicate = False, duplicate_of = None\<rparr>"

definition storyM :: UniqueStory where
  "storyM = \<lparr>story_id = ''m'', primary_article = artM, duplicate_articles = [],
     all_entities = entities artM, all_stock_impacts = stock_impacts artM,
     confidence_score = 1\<rparr>"

definition artH :: NewsArticle where
  "artH = \<lparr>article_id = Some ''h'', title = ''HDFC Bank announces dividend'',
     content = ''The board approved the policy.'', source = ''s'', url = None,
     published_date = 0, author = None,
     entities = [\<lparr>entity_name = ''HDFC Bank'', entity_type = COMPANY, mentions = 1,
                   entity_context = None\<rparr>],
     stock_impacts = [\<lparr>symbol = ''HDFCBANK'', company_name = ''HDFC Bank Ltd'', confidence = 1,
                       impact_type = DIRECT, reasoning = None\<rparr>],
     embedding = Some [0, 1], is_duplicate = False, duplicate_of = None\<rparr>"

definition storyH :: UniqueStory where
  "storyH = \<lparr>story_id = ''h'', primary_article = artH, duplicate_articles = [],
     all_entities = entities artH, all_stock_impacts = stock_impacts artH,
     confidence_score = 1\<rparr>"

text \<open>
  A duplicate whose \<open>duplicate_of\<close> names no article of its batch, and an article
  without an id.
\<close>

definition artX :: NewsArticle where
  "artX = artB\<lparr>is_duplicate := True, duplicate_of := Some ''zz''\<rparr>"

definition artN :: NewsArticle where
  "artN = artA\<lparr>article_id := None\<rparr>"

section \<open>Deduplication agent with numpy's shape check\<close>

text \<open>
  The definitions of the deduplication agent above take the similarity as a total
  function: they describe the agent on embeddings of one length.  In the source,
  \<open>get_similarity\<close> computes \<open>np.dot(vec1, vec2)\<close>, which raises \<open>ValueError\<close> when the two
  vectors differ in length; nothing in \<open>NewsArticle\<close> fixes the length of an embedding.
  The definitions below are the same code with that exception; \<open>sim\<close> is the value
  returned for vectors of equal length.
\<close>

definition get_similarity_np ::
  "(real list \<Rightarrow> real list \<Rightarrow> real) \<Rightarrow> real list \<Rightarrow> real list \<Rightarrow> error + real" where
  "get_similarity_np sim embedding1 embedding2 =
     (if length embedding1 = length embedding2 then Inr (sim embedding1 embedding2)
      else Inl ValueError)"

definition calculate_similarity_np ::
  "(real list \<Rightarrow> real list \<Rightarrow> real) \<Rightarrow> NewsArticle \<Rightarrow> NewsArticle \<Rightarrow> error + real" where
  "calculate_similarity_np sim article1 article2 =
     (case embedding article1 of
        None \<Rightarrow> Inl ValueError
      | Some v \<Rightarrow>
          (case embedding article2 of
             None \<Rightarrow> Inl ValueError
           | Some w \<Rightarrow> get_similarity_np sim v w))"

fun find_loop_np ::
  "(real list \<Rightarrow> real list \<Rightarrow> real) \<Rightarrow> real \<Rightarrow> NewsArticle \<Rightarrow> NewsArticle list \<Rightarrow>
   real \<times> string option \<times> string option list \<Rightarrow>
   error + (real \<times> string option \<times> string option list)" where
  "find_loop_np sim thr new_article [] acc = Inr acc"
| "find_loop_np sim thr new_article (existing # rest) (max_similarity, dup_of, similar_articles) =
     (case calculate_similarity_np sim new_article existing of
        Inl e \<Rightarrow> Inl e
      | Inr similarity \<Rightarrow>
          find_loop_np sim thr new_article rest
            (if similarity > max_similarity then similarity else max_similarity,
             if similarity > max_similarity then article_id existing else dup_of,
             if similarity \<ge> thr then similar_articles @ [article_id existing]
             else similar_articles))"

definition find_duplicates_np ::
  "(real list \<Rightarrow> real list \<Rightarrow> real) \<Rightarrow> DeduplicationAgent \<Rightarrow> NewsArticle \<Rightarrow>
   error + (bool \<times> string option \<times> real \<times> string option list)" where
  "find_duplicates_np sim agent new_article =
     (if processed_articles agent = [] then Inr (False, None, 0, [])
      else
        (case find_loop_np sim (threshold agent) new_article (processed_articles agent)
                (0, None, []) of
           Inl e \<Rightarrow> Inl e
         | Inr (max_similarity, dup_of, similar_articles) \<Rightarrow>
             Inr (max_similarity \<ge> threshold agent, dup_of, max_similarity, similar_articles)))"

definition dedup_process_np ::
  "(real list \<Rightarrow> real list \<Rightarrow> real) \<Rightarrow> DeduplicationAgent \<Rightarrow> NewsArticle \<Rightarrow>
   (error + NewsArticle) \<times> DeduplicationAgent" where
  "dedup_process_np sim agent article =
     (if embedding article = None then (Inl ValueError, agent)
      else
        (case find_duplicates_np sim agent article of
           Inl e \<Rightarrow> (Inl e, agent)
         | Inr (is_dup, dup_of, similarity, all_similar) \<Rightarrow>
             (let article' =
                    (if is_dup then article\<lparr>is_duplicate := True, duplicate_of := dup_of\<rparr>
                     else article\<lparr>is_duplicate := False, duplicate_of := None\<rparr>)
              in (Inr article',
                  agent\<lparr>processed_articles := processed_articles agent @ [article']\<rparr>))))"

text \<open>An article whose embedding has one component only.\<close>

definition artS :: NewsArticle where
  "artS = \<lparr>article_id = Some ''s'', title = ''S'', content = ''x'', source = ''s'', url = None,
     published_date = 0, author = None, entities = [], stock_impacts = [],
     embedding = Some [1], is_duplicate = False, duplicate_of = None\<rparr>"


section \<open>Deduplication agent: the scan\<close>

text \<open>
  The loop invariant of \<open>find_duplicates\<close>: started on \<open>(m, d, ids)\<close>, the scan returns the
  larger of \<open>m\<close> and the highest similarity, the id of the first article that attains a
  similarity above \<open>m\<close> (or \<open>d\<close> when none does), and \<open>ids\<close> extended by the ids at or above
  the threshold, in scan order.
\<close>

lemma find_loop_inv:
  assumes "embedding new = Some v" and "\<forall>e\<in>set es. \<exists>w. embedding e = Some w"
  shows "\<exists>m' d'. find_loop sim thr new es (m, d, ids) =
           Inr (m', d', ids @ map article_id (filter (\<lambda>e. sim v (the (embedding e)) \<ge> thr) es))
         \<and> m' = Max (insert m ((\<lambda>e. sim v (the (embedding e))) ` set es))
         \<and> (if m' > m
             then \<exists>ys e zs. es = ys @ e # zs \<and> d' = article_id e \<and> sim v (the (embedding e)) = m'
                    \<and> (\<forall>y\<in>set ys. sim v (the (embedding y)) < m')
             else d' = d)"
  using assms(2)
proof (induction es arbitrary: m d ids)
  case Nil
  then show ?case by simp
next
  case (Cons e es)
  let ?s = "\<lambda>e. sim v (the (embedding e))"
  obtain w where w: "embedding e = Some w" using Cons.prems by auto
  have cs: "calculate_similarity sim new e = Inr (?s e)"
    by (simp add: calculate_similarity_def assms(1) w)
  have rest: "\<forall>e\<in>set es. \<exists>w. embedding e = Some w" using Cons.prems by simp
  show ?case
  proof (cases "?s e > m")
    case True
    from Cons.IH[OF rest, of "?s e" "article_id e" "if ?s e \<ge> thr then ids @ [article_id e] else ids"]
    obtain m' d' where
      r: "find_loop sim thr new es (?s e, article_id e, if ?s e \<ge> thr then ids @ [article_id e] else ids) =
           Inr (m', d', (if ?s e \<ge> thr then ids @ [article_id e] else ids) @ map article_id (filter (\<lambda>e. ?s e \<ge> thr) es))"
      and m': "m' = Max (insert (?s e) (?s ` set es))"
      and d': "(if m' > ?s e
             then \<exists>ys x zs. es = ys @ x # zs \<and> d' = article_id x \<and> ?s x = m'
                    \<and> (\<forall>y\<in>set ys. ?s y < m')
             else d' = article_id e)" by blast
    have ge: "m' \<ge> ?s e" using m' by simp
    have mx: "m' = Max (insert m (?s ` set (e # es)))"
    proof -
      have "Max (insert m (insert (?s e) (?s ` set es))) = max m (Max (insert (?s e) (?s ` set es)))"
        by (rule Max_insert) auto
      then have "Max (insert m (?s ` set (e # es))) = max m m'" using m' by simp
      moreover have "max m m' = m'" using ge True by simp
      ultimately show ?thesis by simp
    qed
    have gt: "m' > m" using ge True by linarith
    have "\<exists>ys x zs. e # es = ys @ x # zs \<and> d' = article_id x \<and> ?s x = m' \<and> (\<forall>y\<in>set ys. ?s y < m')"
    proof (cases "m' > ?s e")
      case True
      with d' obtain ys x zs where "es = ys @ x # zs" "d' = article_id x" "?s x = m'" "\<forall>y\<in>set ys. ?s y < m'"
        by auto
      then have "e # es = (e # ys) @ x # zs \<and> d' = article_id x \<and> ?s x = m' \<and> (\<forall>y\<in>set (e # ys). ?s y < m')"
        using True by simp
      then show ?thesis by blast
    next
      case False
      then have "d' = article_id e" "?s e = m'" using d' ge by auto
      then have "e # es = [] @ e # es \<and> d' = article_id e \<and> ?s e = m' \<and> (\<forall>y\<in>set []. ?s y < m')"
        by simp
      then show ?thesis by blast
    qed
    then show ?thesis using r mx gt True cs by (auto)
  next
    case False
    from Cons.IH[OF rest, of m d "if ?s e \<ge> thr then ids @ [article_id e] else ids"]
    obtain m' d' where
      r: "find_loop sim thr new es (m, d, if ?s e \<ge> thr then ids @ [article_id e] else ids) =
           Inr (m', d', (if ?s e \<ge> thr then ids @ [article_id e] else ids) @ map article_id (filter (\<lambda>e. ?s e \<ge> thr) es))"
      and m': "m' = Max (insert m (?s ` set es))"
      and d': "(if m' > m
             then \<exists>ys x zs. es = ys @ x # zs \<and> d' = article_id x \<and> ?s x = m'
                    \<and> (\<forall>y\<in>set ys. ?s y < m')
             else d' = d)" by blast
    have mx: "m' = Max (insert m (?s ` set (e # es)))"
    proof -
      have eq: "insert m (?s ` set (e # es)) = insert (?s e) (insert m (?s ` set es))" by auto
      have "Max (insert (?s e) (insert m (?s ` set es))) = max (?s e) (Max (insert m (?s ` set es)))"
        by (rule Max_insert) auto
      then have a: "Max (insert m (?s ` set (e # es))) = max (?s e) m'"
        using m' eq by simp
      have "m \<le> m'" using m' by simp
      then have "max (?s e) m' = m'" using False by simp
      with a show ?thesis by simp
    qed
    have "m' > m \<Longrightarrow> \<exists>ys x zs. e # es = ys @ x # zs \<and> d' = article_id x \<and> ?s x = m' \<and> (\<forall>y\<in>set ys. ?s y < m')"
    proof -
      assume g: "m' > m"
      with d' obtain ys x zs where "es = ys @ x # zs" "d' = article_id x" "?s x = m'" "\<forall>y\<in>set ys. ?s y < m'"
        by auto
      then have "e # es = (e # ys) @ x # zs \<and> d' = article_id x \<and> ?s x = m' \<and> (\<forall>y\<in>set (e # ys). ?s y < m')"
        using False g by auto
      then show ?thesis by blast
    qed
    then show ?thesis using r mx d' False cs by (auto)
  qed
qed



lemma find_duplicates_scan:
  assumes ne: "processed_articles agent \<noteq> []" and emb: "embedding new = Some v"
    and seen: "\<forall>e\<in>set (processed_articles agent). \<exists>w. embedding e = Some w"
  shows "\<exists>dup m.
             find_duplicates sim agent new =
               Inr (m \<ge> threshold agent, dup, m,
                    map article_id (filter (\<lambda>e. sim v (the (embedding e)) \<ge> threshold agent) (processed_articles agent)))
           \<and> m = Max (insert 0 ((\<lambda>e. sim v (the (embedding e))) ` set (processed_articles agent)))
           \<and> (if m > 0
               then \<exists>ys e zs. processed_articles agent = ys @ e # zs \<and> dup = article_id e
                      \<and> sim v (the (embedding e)) = m \<and> (\<forall>y\<in>set ys. sim v (the (embedding y)) < m)
               else dup = None)"
proof -
  let ?s = "\<lambda>e. sim v (the (embedding e))"
  from find_loop_inv[OF emb seen, of sim "threshold agent" 0 None "[]"]
  obtain m d where
    f1: "find_loop sim (threshold agent) new (processed_articles agent) (0, None, []) =
       Inr (m, d, map article_id (filter (\<lambda>e. ?s e \<ge> threshold agent) (processed_articles agent)))"
    and f2: "m = Max (insert 0 (?s ` set (processed_articles agent)))"
    and f3: "(if m > 0
      then \<exists>ys e zs. processed_articles agent = ys @ e # zs \<and> d = article_id e
             \<and> ?s e = m \<and> (\<forall>y\<in>set ys. ?s y < m)
      else d = None)"
    by auto
  have "find_duplicates sim agent new =
               Inr (m \<ge> threshold agent, d, m,
                    map article_id (filter (\<lambda>e. ?s e \<ge> threshold agent) (processed_articles agent)))"
    using f1 ne by (simp add: find_duplicates_def)
  with f2 f3 show ?thesis by blast
qed

text \<open>The cosine similarities of the sample embeddings.\<close>

lemma sims:
  "get_similarity [1, 0] [0, 1] = 0"
  "get_similarity [4/5, 3/5] [1, 0] = 4/5"
  "get_similarity [3/5, 4/5] [1, 0] = 3/5"
  "get_similarity [3/5, 4/5] [4/5, 3/5] = 24/25"
  "get_similarity [0, 1] [1, 0] = 0"
  by (simp_all add: get_similarity_def dot_def)






section \<open>Deduplication agent: processing\<close>











section \<open>Merging stock impacts by symbol\<close>


lemma first_max_in: "first_max xs r \<Longrightarrow> r \<in> set xs"
  unfolding first_max_def by auto












section \<open>Mapping a company to a stock\<close>

text \<open>The partial-match loop returns the first matching table entry, if there is one.\<close>

lemma partial_match_None:
  "partial_match t c = None \<longleftrightarrow>
     (\<forall>(key, v)\<in>set t. \<not> (sublist key c \<or> sublist c key))"
proof (induction t)
  case Nil
  show ?case by simp
next
  case (Cons e t)
  obtain key s f where e: "e = (key, s, f)" by (cases e) auto
  show ?case
  proof (cases "sublist key c \<or> sublist c key")
    case True
    then show ?thesis unfolding e by simp blast
  next
    case False
    then have "partial_match (e # t) c = partial_match t c" unfolding e by simp
    with False Cons.IH show ?thesis unfolding e by simp
  qed
qed

lemma partial_match_Some:
  "partial_match t c = Some (symb, full) \<Longrightarrow>
     \<exists>pre key post. t = pre @ (key, symb, full) # post
        \<and> (sublist key c \<or> sublist c key)
        \<and> (\<forall>(k, v)\<in>set pre. \<not> (sublist k c \<or> sublist c k))"
proof (induction t)
  case Nil
  then show ?case by simp
next
  case (Cons e rest)
  obtain key s f where e: "e = (key, s, f)" by (cases e) auto
  show ?case
  proof (cases "sublist key c \<or> sublist c key")
    case True
    then have "symb = s" "full = f" using Cons.prems unfolding e by simp_all
    then have "e # rest = [] @ (key, symb, full) # rest" unfolding e by simp
    moreover have "\<forall>(k, v)\<in>set []. \<not> (sublist k c \<or> sublist c k)" by simp
    ultimately show ?thesis using True
      by (intro exI[of _ "[]"] exI[of _ key] exI[of _ rest] conjI)
  next
    case False
    then have "partial_match rest c = Some (symb, full)" using Cons.prems unfolding e by simp
    from Cons.IH[OF this] obtain pre k post where
      r: "rest = pre @ (k, symb, full) # post" and m: "sublist k c \<or> sublist c k"
      and n: "\<forall>(k, v)\<in>set pre. \<not> (sublist k c \<or> sublist c k)" by blast
    have "e # rest = (e # pre) @ (k, symb, full) # post" using r by simp
    moreover have "\<forall>(k, v)\<in>set (e # pre). \<not> (sublist k c \<or> sublist c k)"
      using n False unfolding e by simp
    ultimately show ?thesis using m
      by (intro exI[of _ "e # pre"] exI[of _ k] exI[of _ post] conjI)
  qed
qed

text \<open>
  C4.  If the lower-cased name is a key of the company table, the result is the direct
  impact with the table's symbol and full name and confidence 1.0.  Otherwise, if
  some key occurs in the lower-cased name or the lower-cased name occurs in some key, the
  result is a direct impact with confidence 0.95, carrying the symbol and full name of
  the first such key in table order.  Otherwise the result is the direct impact with
  symbol UNKNOWN and confidence 0.50.  The mapper appends exactly one impact for a
  company entity.
\<close>

theorem map_company_to_stock_cases:
  "(\<forall>symb full. map_of company_to_symbol (lower name) = Some (symb, full) \<longrightarrow>
      map_company_to_stock name =
        \<lparr>symbol = symb, company_name = full, confidence = 1.0, impact_type = DIRECT,
         reasoning = Some (''Direct mention of '' @ name @ '' in article'')\<rparr>)
   \<and> (lower name \<notin> fst ` set company_to_symbol
        \<and> (\<exists>(key, v)\<in>set company_to_symbol. sublist key (lower name) \<or> sublist (lower name) key) \<longrightarrow>
      confidence (map_company_to_stock name) = 0.95
      \<and> impact_type (map_company_to_stock name) = DIRECT
      \<and> (\<exists>pre key post.
            company_to_symbol =
              pre @ (key, symbol (map_company_to_stock name),
                          company_name (map_company_to_stock name)) # post
          \<and> (sublist key (lower name) \<or> sublist (lower name) key)
          \<and> (\<forall>(k, v)\<in>set pre. \<not> (sublist k (lower name) \<or> sublist (lower name) k))))
   \<and> (lower name \<notin> fst ` set company_to_symbol
        \<and> \<not> (\<exists>(key, v)\<in>set company_to_symbol. sublist key (lower name) \<or> sublist (lower name) key) \<longrightarrow>
      map_company_to_stock name =
        \<lparr>symbol = ''UNKNOWN'', company_name = name, confidence = 0.50, impact_type = DIRECT,
         reasoning = Some (''Company '' @ name @ '' not in mapping database'')\<rparr>)
   \<and> (entity_type e = COMPANY \<longrightarrow>
        map_entities [e] [] = [map_company_to_stock (entity_name e)])"
proof (intro conjI allI impI)
  fix symb full assume "map_of company_to_symbol (lower name) = Some (symb, full)"
  then show "map_company_to_stock name =
        \<lparr>symbol = symb, company_name = full, confidence = 1.0, impact_type = DIRECT,
         reasoning = Some (''Direct mention of '' @ name @ '' in article'')\<rparr>"
    by (simp add: map_company_to_stock_def Let_def)
next
  assume a: "lower name \<notin> fst ` set company_to_symbol
        \<and> (\<exists>(key, v)\<in>set company_to_symbol. sublist key (lower name) \<or> sublist (lower name) key)"
  then have n: "map_of company_to_symbol (lower name) = None"
    by (simp add: map_of_eq_None_iff)
  have "partial_match company_to_symbol (lower name) \<noteq> None"
    using a partial_match_None[of company_to_symbol "lower name"] by blast
  then obtain symb full where p: "partial_match company_to_symbol (lower name) = Some (symb, full)"
    by (cases "partial_match company_to_symbol (lower name)") auto
  have r: "map_company_to_stock name =
      \<lparr>symbol = symb, company_name = full, confidence = 0.95,
                impact_type = DIRECT, reasoning = Some (''Partial match for '' @ name)\<rparr>"
    using n p by (simp add: map_company_to_stock_def Let_def)
  show "confidence (map_company_to_stock name) = 0.95" using r by simp
  show "impact_type (map_company_to_stock name) = DIRECT" using r by simp
  show "\<exists>pre key post.
            company_to_symbol =
              pre @ (key, symbol (map_company_to_stock name),
                          company_name (map_company_to_stock name)) # post
          \<and> (sublist key (lower name) \<or> sublist (lower name) key)
          \<and> (\<forall>(k, v)\<in>set pre. \<not> (sublist k (lower name) \<or> sublist (lower name) k))"
    using partial_match_Some[OF p] r by simp
next
  assume a: "lower name \<notin> fst ` set company_to_symbol
        \<and> \<not> (\<exists>(key, v)\<in>set company_to_symbol. sublist key (lower name) \<or> sublist (lower name) key)"
  then have n: "map_of company_to_symbol (lower name) = None"
    by (simp add: map_of_eq_None_iff)
  have "partial_match company_to_symbol (lower name) = None"
    using a partial_match_None[of company_to_symbol "lower name"] by blast
  then show "map_company_to_stock name =
        \<lparr>symbol = ''UNKNOWN'', company_name = name, confidence = 0.50, impact_type = DIRECT,
         reasoning = Some (''Company '' @ name @ '' not in mapping database'')\<rparr>"
    using n by (simp add: map_company_to_stock_def Let_def)
next
  assume "entity_type e = COMPANY"
  then show "map_entities [e] [] = [map_company_to_stock (entity_name e)]" by simp
qed



text \<open>C4 at three names: an exact key, a name containing a key, and an unknown name.\<close>

lemma lower_samples:
  "lower ''HDFC Bank'' = ''hdfc bank''"
  "lower ''HDFC Bank Limited'' = ''hdfc bank limited''"
  "lower ''Acme'' = ''acme''"
  by (simp_all add: lower_def lower_char_def)

lemma keys_samples:
  "map_of company_to_symbol ''hdfc bank'' = Some (''HDFCBANK'', ''HDFC Bank Ltd'')"
  "''hdfc bank limited'' \<notin> fst ` set company_to_symbol"
  "''acme'' \<notin> fst ` set company_to_symbol"
  by (simp_all add: company_to_symbol_def)

lemma match_limited:
  "\<exists>(key, v)\<in>set company_to_symbol.
     sublist key ''hdfc bank limited'' \<or> sublist ''hdfc bank limited'' key"
proof -
  have "partial_match company_to_symbol ''hdfc bank limited'' \<noteq> None" by code_simp
  then show ?thesis unfolding partial_match_None by (simp add: case_prod_unfold)
qed

lemma match_acme:
  "\<not> (\<exists>(key, v)\<in>set company_to_symbol. sublist key ''acme'' \<or> sublist ''acme'' key)"
proof -
  have "partial_match company_to_symbol ''acme'' = None" by code_simp
  then show ?thesis unfolding partial_match_None by (simp add: case_prod_unfold)
qed

theorem map_company_to_stock_cases_witness:
  "map_of company_to_symbol (lower ''HDFC Bank'') = Some (''HDFCBANK'', ''HDFC Bank Ltd'')
   \<and> map_company_to_stock ''HDFC Bank'' =
        \<lparr>symbol = ''HDFCBANK'', company_name = ''HDFC Bank Ltd'', confidence = 1.0,
         impact_type = DIRECT, reasoning = Some ''Direct mention of HDFC Bank in article''\<rparr>
   \<and> lower ''HDFC Bank Limited'' \<notin> fst ` set company_to_symbol
   \<and> (\<exists>(key, v)\<in>set company_to_symbol.
         sublist key (lower ''HDFC Bank Limited'') \<or> sublist (lower ''HDFC Bank Limited'') key)
   \<and> confidence (map_company_to_stock ''HDFC Bank Limited'') = 0.95
   \<and> lower ''Acme'' \<notin> fst ` set company_to_symbol
   \<and> \<not> (\<exists>(key, v)\<in>set company_to_symbol.
         sublist key (lower ''Acme'') \<or> sublist (lower ''Acme'') key)
   \<and> map_company_to_stock ''Acme'' =
        \<lparr>symbol = ''UNKNOWN'', company_name = ''Acme'', confidence = 0.50, impact_type = DIRECT,
         reasoning = Some ''Company Acme not in mapping database''\<rparr>"
proof -
  have 1: "map_of company_to_symbol (lower ''HDFC Bank'') = Some (''HDFCBANK'', ''HDFC Bank Ltd'')"
    by (simp only: lower_samples keys_samples)
  have 2: "lower ''HDFC Bank Limited'' \<notin> fst ` set company_to_symbol"
    by (simp only: lower_samples keys_samples not_False_eq_True)
  have 3: "\<exists>(key, v)\<in>set company_to_symbol.
         sublist key (lower ''HDFC Bank Limited'') \<or> sublist (lower ''HDFC Bank Limited'') key"
    unfolding lower_samples by (rule match_limited)
  have 4: "lower ''Acme'' \<notin> fst ` set company_to_symbol"
    by (simp only: lower_samples keys_samples not_False_eq_True)
  have 5: "\<not> (\<exists>(key, v)\<in>set company_to_symbol.
         sublist key (lower ''Acme'') \<or> sublist (lower ''Acme'') key)"
    unfolding lower_samples by (rule match_acme)
  note t1 = map_company_to_stock_cases[of "''HDFC Bank''"]
  note t2 = map_company_to_stock_cases[of "''HDFC Bank Limited''"]
  note t3 = map_company_to_stock_cases[of "''Acme''"]
  have a: "map_company_to_stock ''HDFC Bank'' =
        \<lparr>symbol = ''HDFCBANK'', company_name = ''HDFC Bank Ltd'', confidence = 1.0,
         impact_type = DIRECT, reasoning = Some ''Direct mention of HDFC Bank in article''\<rparr>"
    using t1[THEN conjunct1, THEN spec, THEN spec, THEN mp, OF 1] by simp
  have b: "confidence (map_company_to_stock ''HDFC Bank Limited'') = 0.95"
    using t2[THEN conjunct2, THEN conjunct1, THEN mp, OF conjI[OF 2 3], THEN conjunct1] .
  have c: "map_company_to_stock ''Acme'' =
        \<lparr>symbol = ''UNKNOWN'', company_name = ''Acme'', confidence = 0.50, impact_type = DIRECT,
         reasoning = Some ''Company Acme not in mapping database''\<rparr>"
    using t3[THEN conjunct2, THEN conjunct2, THEN conjunct1, THEN mp, OF conjI[OF 4 5]] by simp
  show ?thesis by (intro conjI) (fact 1 a 2 3 b 4 5 c)+
qed

section \<open>Story aggregation\<close>

text \<open>
  The loop returns when every non-duplicate article it reaches has an id, and every story
  it builds has a non-duplicate article of the batch as its primary article and, as its
  duplicates, exactly the duplicates of the batch that point at that article's id.
\<close>

lemma create_unique_story_Inr:
  assumes "article_id p = Some i"
  shows "\<exists>s. create_unique_story p ds = Inr s \<and> primary_article s = p \<and> duplicate_articles s = ds"
  using assms by (simp add: create_unique_story_def Let_def)

lemma storage_loop_stories:
  assumes "\<forall>p\<in>set rest. \<not> is_duplicate p \<longrightarrow> article_id p \<noteq> None"
  shows "\<exists>stories. storage_loop batch rest pids acc = Inr (acc @ stories)
           \<and> (\<forall>s\<in>set stories. \<exists>p\<in>set rest. \<not> is_duplicate p \<and> primary_article s = p
                 \<and> duplicate_articles s =
                      filter (\<lambda>other. is_duplicate other \<and> duplicate_of other = article_id p) batch)"
  using assms
proof (induction rest arbitrary: pids acc)
  case Nil
  then show ?case by simp
next
  case (Cons a rest)
  have rest: "\<forall>p\<in>set rest. \<not> is_duplicate p \<longrightarrow> article_id p \<noteq> None"
    using Cons.prems by simp
  let ?Q = "\<lambda>rs s. \<exists>p\<in>set rs. \<not> is_duplicate p \<and> primary_article s = p
                 \<and> duplicate_articles s =
                      filter (\<lambda>other. is_duplicate other \<and> duplicate_of other = article_id p) batch"
  have mono: "\<And>s. ?Q rest s \<Longrightarrow> ?Q (a # rest) s" by auto
  show ?case
  proof (cases "article_id a \<in> pids \<or> is_duplicate a")
    case True
    then obtain pids' where st: "storage_loop batch (a # rest) pids acc = storage_loop batch rest pids' acc"
      by (cases "article_id a \<in> pids") auto
    from Cons.IH[OF rest, of pids' acc] obtain stories where
      r: "storage_loop batch rest pids' acc = Inr (acc @ stories)" and q: "\<forall>s\<in>set stories. ?Q rest s"
      by blast
    have "\<forall>s\<in>set stories. ?Q (a # rest) s" using q mono by blast
    with r st show ?thesis by (intro exI[of _ stories]) simp
  next
    case False
    then have np: "article_id a \<notin> pids" and nd: "\<not> is_duplicate a" by auto
    then obtain i where i: "article_id a = Some i" using Cons.prems by auto
    let ?dups = "filter (\<lambda>other. is_duplicate other \<and> duplicate_of other = article_id a) batch"
    from create_unique_story_Inr[OF i, of ?dups] obtain s where
      s: "create_unique_story a ?dups = Inr s" "primary_article s = a" "duplicate_articles s = ?dups"
      by blast
    let ?pids = "insert (article_id a) (pids \<union> set (map article_id ?dups))"
    have st: "storage_loop batch (a # rest) pids acc = storage_loop batch rest ?pids (acc @ [s])"
      using np nd s(1) by (simp add: Let_def)
    from Cons.IH[OF rest, of ?pids "acc @ [s]"] obtain stories where
      r: "storage_loop batch rest ?pids (acc @ [s]) = Inr ((acc @ [s]) @ stories)"
      and q: "\<forall>s\<in>set stories. ?Q rest s" by blast
    have qs: "?Q (a # rest) s" using nd s(2,3) by simp
    have "\<forall>t\<in>set (s # stories). ?Q (a # rest) t"
    proof
      fix t assume "t \<in> set (s # stories)"
      then have "t = s \<or> t \<in> set stories" by simp
      then show "?Q (a # rest) t"
      proof
        assume "t = s" then show ?thesis using qs by simp
      next
        assume "t \<in> set stories" then show ?thesis using q mono by blast
      qed
    qed
    moreover have "storage_loop batch (a # rest) pids acc = Inr (acc @ (s # stories))"
      using st r by simp
    ultimately show ?thesis by (intro exI[of _ "s # stories"] conjI)
  qed
qed

text \<open>
  C9 (as amended).  For every batch whose non-duplicate articles all have an id: the
  aggregation returns its stories without raising, and a duplicate article whose
  \<open>duplicate_of\<close> is not the id of any non-duplicate article of the batch is neither the
  primary article nor among the duplicates of any story returned.
\<close>

theorem dangling_duplicate_dropped:
  assumes "d \<in> set batch" and "is_duplicate d"
    and "\<forall>p\<in>set batch. \<not> is_duplicate p \<longrightarrow> article_id p \<noteq> duplicate_of d"
    and "\<forall>p\<in>set batch. \<not> is_duplicate p \<longrightarrow> article_id p \<noteq> None"
  shows "\<exists>stories. storage_process agent batch =
                     (Inr stories, agent\<lparr>unique_stories := unique_stories agent @ stories\<rparr>)
           \<and> (\<forall>s\<in>set stories. primary_article s \<noteq> d \<and> d \<notin> set (duplicate_articles s))"
proof -
  from storage_loop_stories[OF assms(4), of batch "{}" "[]"] obtain stories where
    r: "storage_loop batch batch {} [] = Inr stories"
    and q: "\<forall>s\<in>set stories. \<exists>p\<in>set batch. \<not> is_duplicate p \<and> primary_article s = p
                 \<and> duplicate_articles s =
                      filter (\<lambda>other. is_duplicate other \<and> duplicate_of other = article_id p) batch"
    by auto
  have "\<forall>s\<in>set stories. primary_article s \<noteq> d \<and> d \<notin> set (duplicate_articles s)"
  proof
    fix s assume "s \<in> set stories"
    with q obtain p where p: "p \<in> set batch" "\<not> is_duplicate p" "primary_article s = p"
      "duplicate_articles s =
         filter (\<lambda>other. is_duplicate other \<and> duplicate_of other = article_id p) batch"
      by blast
    have "primary_article s \<noteq> d" using p(2,3) assms(2) by auto
    moreover have "d \<notin> set (duplicate_articles s)"
    proof
      assume "d \<in> set (duplicate_articles s)"
      then have "duplicate_of d = article_id p" using p(4) by simp
      then show False using assms(3) p(1,2) by auto
    qed
    ultimately show "primary_article s \<noteq> d \<and> d \<notin> set (duplicate_articles s)" by simp
  qed
  moreover have "storage_process agent batch =
                     (Inr stories, agent\<lparr>unique_stories := unique_stories agent @ stories\<rparr>)"
    using r by (simp add: storage_process_def)
  ultimately show ?thesis by blast
qed

theorem dangling_duplicate_dropped_witness:
  "artX \<in> set [artX, artA] \<and> is_duplicate artX
   \<and> is_duplicate artA = False \<and> article_id artA \<noteq> duplicate_of artX \<and> article_id artA \<noteq> None
   \<and> (\<exists>stories. fst (storage_process \<lparr>unique_stories = []\<rparr> [artX, artA]) = Inr stories
         \<and> map story_id stories = [''a'']
         \<and> (\<forall>s\<in>set stories. primary_article s \<noteq> artX \<and> artX \<notin> set (duplicate_articles s)))"
proof -
  have h1: "artX \<in> set [artX, artA]" by simp
  have h2: "is_duplicate artX" by (simp add: artX_def)
  have f: "is_duplicate artA = False" "article_id artA \<noteq> duplicate_of artX" "article_id artA \<noteq> None"
    by (simp_all add: artA_def artX_def)
  have h3: "\<forall>p\<in>set [artX, artA]. \<not> is_duplicate p \<longrightarrow> article_id p \<noteq> duplicate_of artX"
    using h2 f by simp
  have h4: "\<forall>p\<in>set [artX, artA]. \<not> is_duplicate p \<longrightarrow> article_id p \<noteq> None"
    using h2 f by simp
  from dangling_duplicate_dropped[OF h1 h2 h3 h4, of "\<lparr>unique_stories = []\<rparr>"]
  obtain stories where
    s: "storage_process \<lparr>unique_stories = []\<rparr> [artX, artA] =
          (Inr stories, \<lparr>unique_stories = []\<rparr>\<lparr>unique_stories := unique_stories \<lparr>unique_stories = []\<rparr> @ stories\<rparr>)"
    and q: "\<forall>s\<in>set stories. primary_article s \<noteq> artX \<and> artX \<notin> set (duplicate_articles s)"
    by blast
  have e: "fst (storage_process \<lparr>unique_stories = []\<rparr> [artX, artA]) = Inr stories"
    using s by simp
  have "fst (storage_process \<lparr>unique_stories = []\<rparr> [artX, artA]) =
          Inr [\<lparr>story_id = ''a'', primary_article = artA, duplicate_articles = [],
                all_entities = [], all_stock_impacts = [], confidence_score = 1\<rparr>]"
    by (simp add: storage_process_def create_unique_story_def Let_def merge_by_symbol_def
        artX_def artA_def artB_def)
  with e have "stories = [\<lparr>story_id = ''a'', primary_article = artA, duplicate_articles = [],
                all_entities = [], all_stock_impacts = [], confidence_score = 1\<rparr>]" by simp
  then have m: "map story_id stories = [''a'']" by simp
  have x: "\<exists>stories. fst (storage_process \<lparr>unique_stories = []\<rparr> [artX, artA]) = Inr stories
         \<and> map story_id stories = [''a'']
         \<and> (\<forall>s\<in>set stories. primary_article s \<noteq> artX \<and> artX \<notin> set (duplicate_articles s))"
    using e m q by (intro exI[of _ stories] conjI)
  show ?thesis using h1 h2 f x by (intro conjI)
qed

text \<open>
  C9 as stated fails on a batch that holds, next to the dangling duplicate, a
  non-duplicate article without an id: building its story raises a validation error,
  so the aggregation does not return.
\<close>

theorem dangling_duplicate_counterexample:
  "artX \<in> set [artX, artN] \<and> is_duplicate artX
   \<and> is_duplicate artN = False \<and> article_id artN \<noteq> duplicate_of artX
   \<and> fst (storage_process \<lparr>unique_stories = []\<rparr> [artX, artN]) = Inl ValidationError"
  by (simp add: storage_process_def create_unique_story_def Let_def artX_def artN_def artA_def artB_def)

section \<open>Query parsing\<close>

text \<open>The loops of \<open>parse_query\<close> as filters, and what \<open>split\<close> returns.\<close>

lemma extract_matches_filter:
  "extract_matches tbl q found = found @ map snd (filter (\<lambda>(k, v). sublist k q) tbl)"
proof (induction tbl arbitrary: found)
  case Nil
  show ?case by simp
next
  case (Cons e tbl)
  obtain k v where e: "e = (k, v)" by (cases e)
  show ?case unfolding e by (simp add: Cons.IH)
qed

lemma keyword_loop_filter:
  "keyword_loop ws acc =
     acc @ filter (\<lambda>w. length w > 3 \<and> w \<notin> {''news'', ''update'', ''latest'', ''recent''}) ws"
  by (induction ws arbitrary: acc) simp_all

lemma split_from_concat: "concat (split_from w cs) = w @ filter (\<lambda>c. \<not> isspace c) cs"
  by (induction cs arbitrary: w) simp_all

lemma split_from_words:
  "\<forall>c\<in>set w. \<not> isspace c \<Longrightarrow>
   \<forall>x\<in>set (split_from w cs). x \<noteq> [] \<and> (\<forall>c\<in>set x. \<not> isspace c)"
proof (induction cs arbitrary: w)
  case Nil
  then show ?case by simp
next
  case (Cons a cs)
  show ?case
  proof (cases "isspace a")
    case True
    have "\<forall>x\<in>set (split_from [] cs). x \<noteq> [] \<and> (\<forall>c\<in>set x. \<not> isspace c)"
      by (rule Cons.IH) simp
    then show ?thesis using True Cons.prems by simp
  next
    case False
    have "\<forall>x\<in>set (split_from (w @ [a]) cs). x \<noteq> [] \<and> (\<forall>c\<in>set x. \<not> isspace c)"
      by (rule Cons.IH) (use False Cons.prems in simp)
    then show ?thesis using False by simp
  qed
qed

lemma parse_query_parts:
  "parse_query query =
     (map snd (filter (\<lambda>(k, v). sublist k (lower query)) company_keywords),
      map snd (filter (\<lambda>(k, v). sublist k (lower query)) sector_keywords),
      filter (\<lambda>w. length w > 3 \<and> w \<notin> {''news'', ''update'', ''latest'', ''recent''})
        (split (lower query)))"
  by (simp add: parse_query_def Let_def extract_matches_filter keyword_loop_filter)

lemma parse_samples:
  "parse_query ''HDFC Bank news'' = ([''HDFCBANK'', ''HDFCBANK''], [''banking''], [''hdfc'', ''bank''])"
  "parse_query ''auto'' = ([], [''automobile''], [''auto''])"
  "parse_query ''merger'' = ([], [], [''merger''])"
  "parse_query ''banking news'' = ([], [''banking'', ''banking''], [''banking''])"
  "parse_query [] = ([], [], [])"
  by code_simp+

lemma split_sample: "split (lower ''HDFC Bank news'') = [''hdfc'', ''bank'', ''news'']"
  by code_simp

text \<open>
  C6 (as amended).  The free keywords are the words of the whole lower-cased query, in
  order, that are longer than 3 characters and not in the stop-list; the words are
  non-empty, free of whitespace, and together hold every non-whitespace character of
  the query.  The company and sector lists are read from the same lower-cased query and
  remove nothing from it.
\<close>

theorem parse_query_keywords:
  "snd (snd (parse_query query)) =
     filter (\<lambda>w. length w > 3 \<and> w \<notin> {''news'', ''update'', ''latest'', ''recent''})
       (split (lower query))
   \<and> concat (split (lower query)) = filter (\<lambda>c. \<not> isspace c) (lower query)
   \<and> (\<forall>w\<in>set (split (lower query)). w \<noteq> [] \<and> (\<forall>c\<in>set w. \<not> isspace c))
   \<and> fst (parse_query query) =
       map snd (filter (\<lambda>(k, v). sublist k (lower query)) company_keywords)
   \<and> fst (snd (parse_query query)) =
       map snd (filter (\<lambda>(k, v). sublist k (lower query)) sector_keywords)"
proof (intro conjI)
  show "snd (snd (parse_query query)) =
     filter (\<lambda>w. length w > 3 \<and> w \<notin> {''news'', ''update'', ''latest'', ''recent''})
       (split (lower query))"
    by (simp add: parse_query_parts)
  show "concat (split (lower query)) = filter (\<lambda>c. \<not> isspace c) (lower query)"
    by (simp add: split_def split_from_concat)
  show "\<forall>w\<in>set (split (lower query)). w \<noteq> [] \<and> (\<forall>c\<in>set w. \<not> isspace c)"
    unfolding split_def by (rule split_from_words) simp
  show "fst (parse_query query) =
       map snd (filter (\<lambda>(k, v). sublist k (lower query)) company_keywords)"
    by (simp add: parse_query_parts)
  show "fst (snd (parse_query query)) =
       map snd (filter (\<lambda>(k, v). sublist k (lower query)) sector_keywords)"
    by (simp add: parse_query_parts)
qed

theorem parse_query_keywords_witness:
  "split (lower ''HDFC Bank news'') = [''hdfc'', ''bank'', ''news'']
   \<and> snd (snd (parse_query ''HDFC Bank news'')) = [''hdfc'', ''bank'']"
  using parse_query_keywords[of "''HDFC Bank news''"] by (simp add: split_sample)

text \<open>
  C6 as stated fails: in the query "HDFC Bank news" the word "hdfc" is matched as a
  company phrase and is a free keyword as well.
\<close>

theorem parse_query_keywords_counterexample:
  "fst (parse_query ''HDFC Bank news'') = [''HDFCBANK'', ''HDFCBANK'']
   \<and> (''hdfc'', ''HDFCBANK'') \<in> set company_keywords
   \<and> sublist ''hdfc'' (lower ''HDFC Bank news'')
   \<and> ''hdfc'' \<in> set (snd (snd (parse_query ''HDFC Bank news'')))"
proof -
  have "sublist ''hdfc'' (lower ''HDFC Bank news'')" by code_simp
  moreover have "(''hdfc'', ''HDFCBANK'') \<in> set company_keywords"
    by (simp add: company_keywords_def)
  ultimately show ?thesis by (simp add: parse_samples)
qed

section \<open>The query result\<close>

text \<open>
  C7 at a failing input.  The query "banking news" detects a sector, yet the result
  of \<open>process\<close> with \<open>include_sector_news\<close> true is the same record as with it false: the
  result carries no sector-expansion indicator.
\<close>

theorem expansion_flag_dropped:
  "fst (snd (parse_query ''banking news'')) = [''banking'', ''banking'']
   \<and> query_process rd \<lparr>unique_stories = []\<rparr> ''banking news'' 10 True 0.5 0 =
       \<lparr>query_text = ''banking news'', results = [], total_results = 0, processing_time = 0,
        explanation = None\<rparr>
   \<and> query_process rd \<lparr>unique_stories = []\<rparr> ''banking news'' 10 False 0.5 0 =
       \<lparr>query_text = ''banking news'', results = [], total_results = 0, processing_time = 0,
        explanation = None\<rparr>"
  by (simp add: query_process_def search_by_query_def QueryResult_init_def parse_samples
      slice_to_def)

section \<open>Scoring and ranking\<close>

text \<open>
  Each scoring loop adds its terms to the relevance it starts from, one rounded
  addition per term, from left to right.
\<close>

lemma company_loop_find:
  "company_loop rd impacts c r =
     foldl (fl_add rd) r
       (case find (\<lambda>i. symbol i = c) impacts of
          Some i \<Rightarrow> [fl_mul rd 1.0 (confidence i)] | None \<Rightarrow> [])"
  by (induction impacts) simp_all

lemma companies_loop_terms:
  "companies_loop rd cs impacts r =
     foldl (fl_add rd) r
       (concat (map (\<lambda>c. case find (\<lambda>i. symbol i = c) impacts of
                          Some i \<Rightarrow> [fl_mul rd 1.0 (confidence i)] | None \<Rightarrow> []) cs))"
  by (induction cs arbitrary: r) (simp_all add: company_loop_find)

lemma sector_loop_any:
  "sector_loop rd ents s r =
     foldl (fl_add rd) r
       (if \<exists>e\<in>set ents. sublist s (lower (entity_name e)) then [rd 0.7] else [])"
  by (induction ents) simp_all

lemma sectors_loop_terms:
  "sectors_loop rd ss ents r =
     foldl (fl_add rd) r
       (concat (map (\<lambda>s. if \<exists>e\<in>set ents. sublist s (lower (entity_name e))
                          then [rd 0.7] else []) ss))"
  by (induction ss arbitrary: r) (simp_all add: sector_loop_any)

lemma keywords_score_terms:
  "keywords_score rd ks t b r =
     foldl (fl_add rd) r
       (concat (map (\<lambda>k. if sublist k t then [rd 0.5]
                          else if sublist k b then [rd 0.3] else []) ks))"
  by (induction ks arbitrary: r) simp_all

lemma story_relevance_terms:
  "story_relevance rd companies sectors keywords include_sector_news story =
     foldl (fl_add rd) 0
       (relevance_terms rd companies (if include_sector_news then sectors else []) keywords story)"
  by (simp add: story_relevance_def relevance_terms_def Let_def companies_loop_terms
      sectors_loop_terms keywords_score_terms)

lemma score_stories_filter:
  "score_stories rel m stories res =
     res @ filter (\<lambda>p. snd p \<ge> m) (map (\<lambda>s. (s, rel s)) stories)"
  by (induction stories arbitrary: res) simp_all

lemma sort_desc_props:
  "mset (sort_key (\<lambda>x. - snd x) xs) = mset xs"
  "sorted_wrt (\<lambda>p q. snd p \<ge> snd q) (sort_key (\<lambda>x. - snd x) (xs :: ('a \<times> real) list))"
  "filter (\<lambda>p. snd p = r) (sort_key (\<lambda>x. - snd x) xs) = filter (\<lambda>p. snd p = r) (xs :: ('a \<times> real) list)"
proof -
  show "mset (sort_key (\<lambda>x. - snd x) xs) = mset xs" by simp
  have "sorted (map (\<lambda>x. - snd x) (sort_key (\<lambda>x. - snd x) xs))" by (rule sorted_sort_key)
  then show "sorted_wrt (\<lambda>p q. snd p \<ge> snd q) (sort_key (\<lambda>x. - snd x) xs)"
    by (simp add: sorted_map)
  have "filter (\<lambda>y. - snd y = - r) (sort_key (\<lambda>x. - snd x) xs) = filter (\<lambda>y. - snd y = - r) xs"
    by (rule sort_key_stable)
  then show "filter (\<lambda>p. snd p = r) (sort_key (\<lambda>x. - snd x) xs) = filter (\<lambda>p. snd p = r) xs"
    by simp
qed

lemma slice_to_map: "slice_to limit (map f xs) = map f (slice_to limit xs)"
  by (simp add: slice_to_def take_map)

lemma sort_key_all_equal:
  assumes "\<forall>x\<in>set xs. f x = k"
  shows "sort_key f xs = xs"
proof -
  have "filter (\<lambda>y. f y = k) (sort_key f xs) = filter (\<lambda>y. f y = k) xs"
    by (rule sort_key_stable)
  moreover have "filter (\<lambda>y. f y = k) xs = xs" using assms by simp
  moreover have "filter (\<lambda>y. f y = k) (sort_key f xs) = sort_key f xs" using assms by simp
  ultimately show ?thesis by simp
qed

lemma relevance_terms_no_match:
  assumes "\<forall>c\<in>set companies. \<forall>i\<in>set (all_stock_impacts s). symbol i \<noteq> c"
    and "\<forall>x\<in>set sectors. \<forall>e\<in>set (all_entities s). \<not> sublist x (lower (entity_name e))"
    and "\<forall>k\<in>set kws. \<not> sublist k (lower (title (primary_article s)))
            \<and> \<not> sublist k (lower (content (primary_article s)))"
  shows "relevance_terms rd companies sectors kws s = []"
proof -
  have "\<forall>c\<in>set companies. find (\<lambda>i. symbol i = c) (all_stock_impacts s) = None"
    using assms(1) by (simp add: find_None_iff)
  then have a: "concat (map (\<lambda>c. case find (\<lambda>i. symbol i = c) (all_stock_impacts s) of
                         Some i \<Rightarrow> [fl_mul rd 1.0 (confidence i)] | None \<Rightarrow> []) companies) = []"
    by (induction companies) simp_all
  have b: "concat (map (\<lambda>x. if \<exists>e\<in>set (all_entities s). sublist x (lower (entity_name e))
                         then [rd 0.7] else []) sectors) = []"
    using assms(2) by (induction sectors) simp_all
  have c: "concat (map (\<lambda>k. if sublist k (lower (title (primary_article s))) then [rd 0.5]
                         else if sublist k (lower (content (primary_article s)))
                         then [rd 0.3] else []) kws) = []"
    using assms(3) by (induction kws) simp_all
  show ?thesis unfolding relevance_terms_def a b c by simp
qed

lemma search_by_query_ranked:
  assumes "parse_query query = (companies, sectors, keywords)"
  shows "search_by_query rd storage query limit incl m =
     slice_to limit (sort_key (\<lambda>x. - snd x)
       (filter (\<lambda>p. snd p \<ge> m)
          (map (\<lambda>s. (s, foldl (fl_add rd) 0
                          (relevance_terms rd companies (if incl then sectors else []) keywords s)))
             (unique_stories storage))))"
  using assms
  by (simp add: search_by_query_def score_stories_filter story_relevance_terms)

lemma search_no_match:
  assumes pq: "parse_query query = (companies, sectors, keywords)"
    and nm: "\<forall>s\<in>set (unique_stories storage).
         (\<forall>c\<in>set companies. \<forall>i\<in>set (all_stock_impacts s). symbol i \<noteq> c)
       \<and> (\<forall>x\<in>set sectors. \<forall>e\<in>set (all_entities s). \<not> sublist x (lower (entity_name e)))
       \<and> (\<forall>k\<in>set keywords. \<not> sublist k (lower (title (primary_article s)))
            \<and> \<not> sublist k (lower (content (primary_article s))))"
  shows "search_by_query rd storage query limit incl 0 =
           map (\<lambda>s. (s, 0)) (slice_to limit (unique_stories storage))"
proof -
  let ?rel = "\<lambda>s. foldl (fl_add rd) 0
                (relevance_terms rd companies (if incl then sectors else []) keywords s)"
  have z: "\<forall>s\<in>set (unique_stories storage). ?rel s = 0"
  proof
    fix s assume s: "s \<in> set (unique_stories storage)"
    show "?rel s = 0"
    proof (cases incl)
      case True
      then show ?thesis using nm s by (simp add: relevance_terms_no_match)
    next
      case False
      have "relevance_terms rd companies [] keywords s = []"
        using nm s by (intro relevance_terms_no_match) auto
      then show ?thesis using False by simp
    qed
  qed
  then have m: "map (\<lambda>s. (s, ?rel s)) (unique_stories storage) =
                map (\<lambda>s. (s, 0)) (unique_stories storage)" by simp
  have f: "filter (\<lambda>p. snd p \<ge> 0) (map (\<lambda>s. (s, 0::real)) (unique_stories storage)) =
           map (\<lambda>s. (s, 0)) (unique_stories storage)" by (simp add: filter_map comp_def)
  have st: "sort_key (\<lambda>x. - snd x) (map (\<lambda>s. (s, 0::real)) (unique_stories storage)) =
            map (\<lambda>s. (s, 0)) (unique_stories storage)"
    by (rule sort_key_all_equal[where k = 0]) auto
  show ?thesis
    unfolding search_by_query_ranked[OF pq] m f st by (rule slice_to_map)
qed

lemma relevance_samples:
  "foldl (fl_add exact) 0
     (relevance_terms exact [''HDFCBANK'', ''HDFCBANK''] [''banking''] [''hdfc'', ''bank''] storyH) = 3"
  "foldl (fl_add exact) 0 (relevance_terms exact [] [''automobile''] [''auto''] storyM) = 0.7"
  "story_relevance exact [] [''automobile''] [''auto''] False storyM = 0"
  by code_simp+

lemma search_samples:
  "search_by_query exact \<lparr>unique_stories = [storyM, storyH]\<rparr> ''HDFC Bank news'' 10 True 0.5
     = [(storyH, 3)]"
  "search_by_query exact \<lparr>unique_stories = [storyM]\<rparr> ''auto'' 10 False 0.5 = []"
  by code_simp+

lemma no_match_samples:
  "\<not> sublist ''merger'' (lower (title (primary_article storyM)))"
  "\<not> sublist ''merger'' (lower (content (primary_article storyM)))"
  "\<not> sublist ''merger'' (lower (title (primary_article storyH)))"
  "\<not> sublist ''merger'' (lower (content (primary_article storyH)))"
  by code_simp+

text \<open>
  C10.  With \<open>min_relevance_score = 0\<close>, when nothing of the parsed query matches any
  stored story (and in particular for the empty query), every story scores 0 and
  passes the filter: the search returns the stories in storage order, cut by
  \<open>[:limit]\<close>, which for a non-negative limit is the first \<open>limit\<close> stories; \<open>process\<close>
  returns the same stories.  This holds whatever the rounding.
\<close>

theorem zero_threshold_returns_all:
  "(parse_query query = (companies, sectors, keywords)
    \<and> (\<forall>s\<in>set (unique_stories storage).
         (\<forall>c\<in>set companies. \<forall>i\<in>set (all_stock_impacts s). symbol i \<noteq> c)
       \<and> (\<forall>x\<in>set sectors. \<forall>e\<in>set (all_entities s). \<not> sublist x (lower (entity_name e)))
       \<and> (\<forall>k\<in>set keywords. \<not> sublist k (lower (title (primary_article s)))
            \<and> \<not> sublist k (lower (content (primary_article s)))))
    \<longrightarrow> search_by_query rd storage query limit incl 0 =
          map (\<lambda>s. (s, 0)) (slice_to limit (unique_stories storage))
      \<and> results (query_process rd storage query limit incl 0 elapsed) =
          slice_to limit (unique_stories storage))
   \<and> search_by_query rd storage [] limit incl 0 =
       map (\<lambda>s. (s, 0)) (slice_to limit (unique_stories storage))
   \<and> results (query_process rd storage [] limit incl 0 elapsed) =
       slice_to limit (unique_stories storage)
   \<and> (0 \<le> limit \<longrightarrow>
        slice_to limit (unique_stories storage) = take (nat limit) (unique_stories storage))"
proof (intro conjI impI)
  assume a: "parse_query query = (companies, sectors, keywords)
    \<and> (\<forall>s\<in>set (unique_stories storage).
         (\<forall>c\<in>set companies. \<forall>i\<in>set (all_stock_impacts s). symbol i \<noteq> c)
       \<and> (\<forall>x\<in>set sectors. \<forall>e\<in>set (all_entities s). \<not> sublist x (lower (entity_name e)))
       \<and> (\<forall>k\<in>set keywords. \<not> sublist k (lower (title (primary_article s)))
            \<and> \<not> sublist k (lower (content (primary_article s)))))"
  then have pq: "parse_query query = (companies, sectors, keywords)" by blast
  show r: "search_by_query rd storage query limit incl 0 =
          map (\<lambda>s. (s, 0)) (slice_to limit (unique_stories storage))"
    using a by (intro search_no_match[OF pq]) blast
  show "results (query_process rd storage query limit incl 0 elapsed) =
          slice_to limit (unique_stories storage)"
    by (simp add: query_process_def pq r QueryResult_init_def comp_def)
next
  have pq: "parse_query [] = ([], [], [])"
    by (simp add: parse_query_parts lower_def split_def company_keywords_def sector_keywords_def)
  show r: "search_by_query rd storage [] limit incl 0 =
       map (\<lambda>s. (s, 0)) (slice_to limit (unique_stories storage))"
    by (rule search_no_match[OF pq]) simp
  show "results (query_process rd storage [] limit incl 0 elapsed) =
       slice_to limit (unique_stories storage)"
    by (simp add: query_process_def pq r QueryResult_init_def comp_def)
next
  assume "0 \<le> limit"
  then show "slice_to limit (unique_stories storage) = take (nat limit) (unique_stories storage)"
    by (simp add: slice_to_def)
qed

theorem zero_threshold_returns_all_witness:
  "parse_query ''merger'' = ([], [], [''merger''])
   \<and> \<not> sublist ''merger'' (lower (title (primary_article storyM)))
   \<and> \<not> sublist ''merger'' (lower (content (primary_article storyM)))
   \<and> \<not> sublist ''merger'' (lower (title (primary_article storyH)))
   \<and> \<not> sublist ''merger'' (lower (content (primary_article storyH)))
   \<and> search_by_query exact \<lparr>unique_stories = [storyM, storyH]\<rparr> ''merger'' 1 True 0
       = [(storyM, 0)]
   \<and> results (query_process exact \<lparr>unique_stories = [storyM, storyH]\<rparr> ''merger'' 1 True 0 0)
       = [storyM]"
proof -
  have pq: "parse_query ''merger'' = ([], [], [''merger''])" by (rule parse_samples)
  have nm: "\<forall>s\<in>set (unique_stories \<lparr>unique_stories = [storyM, storyH]\<rparr>).
         (\<forall>c\<in>set []. \<forall>i\<in>set (all_stock_impacts s). symbol i \<noteq> c)
       \<and> (\<forall>x\<in>set []. \<forall>e\<in>set (all_entities s). \<not> sublist x (lower (entity_name e)))
       \<and> (\<forall>k\<in>set [''merger'']. \<not> sublist k (lower (title (primary_article s)))
            \<and> \<not> sublist k (lower (content (primary_article s))))"
    using no_match_samples by simp
  note t = zero_threshold_returns_all[of "''merger''" "[]" "[]" "[''merger'']"
      "\<lparr>unique_stories = [storyM, storyH]\<rparr>" exact 1 True 0, THEN conjunct1, THEN mp,
      OF conjI[OF pq nm]]
  have sl: "slice_to 1 (unique_stories \<lparr>unique_stories = [storyM, storyH]\<rparr>) = [storyM]"
    by (simp add: slice_to_def)
  have a: "search_by_query exact \<lparr>unique_stories = [storyM, storyH]\<rparr> ''merger'' 1 True 0
       = [(storyM, 0)]"
    using t[THEN conjunct1] unfolding sl by simp
  have b: "results (query_process exact \<lparr>unique_stories = [storyM, storyH]\<rparr> ''merger'' 1 True 0 0)
       = [storyM]"
    using t[THEN conjunct2] unfolding sl by simp
  show ?thesis using pq no_match_samples a b by (intro conjI)
qed

text \<open>
  C5 (as amended).  The relevance of a story is accumulated from 0.0 by one
  floating-point addition per term, in this order: for each occurrence of a symbol in the
  parsed company list, 1.0 times the confidence of the first impact with that symbol
  (nothing if there is none); then, only when \<open>include_sector_news\<close> is true, 0.7 for
  each parsed sector that occurs in the lower-cased name of some entity; then, for each
  keyword, 0.5 if it occurs in the lower-cased title and otherwise 0.3 if it occurs in
  the lower-cased content.  Each addition is rounded, so the score is the exact sum
  only up to rounding.  The search returns \<open>[:limit]\<close> of a list that holds exactly the
  stories whose score is at least \<open>min_relevance_score\<close>, in descending order of score,
  stories of equal score in storage order.
\<close>

theorem search_by_query_ranking:
  "parse_query query = (companies, sectors, keywords) \<longrightarrow>
     (\<forall>story. story_relevance rd companies sectors keywords incl story =
         foldl (fl_add rd) 0
           (relevance_terms rd companies (if incl then sectors else []) keywords story))
   \<and> (\<exists>ranked.
         search_by_query rd storage query limit incl m = slice_to limit ranked
       \<and> mset ranked =
           mset (filter (\<lambda>p. snd p \<ge> m)
             (map (\<lambda>s. (s, story_relevance rd companies sectors keywords incl s))
                (unique_stories storage)))
       \<and> sorted_wrt (\<lambda>p q. snd p \<ge> snd q) ranked
       \<and> (\<forall>r. filter (\<lambda>p. snd p = r) ranked =
               filter (\<lambda>p. snd p = r)
                 (filter (\<lambda>p. snd p \<ge> m)
                   (map (\<lambda>s. (s, story_relevance rd companies sectors keywords incl s))
                      (unique_stories storage))))
       \<and> (0 \<le> limit \<longrightarrow> slice_to limit ranked = take (nat limit) ranked))"
proof (intro impI conjI allI)
  fix story
  show "story_relevance rd companies sectors keywords incl story =
         foldl (fl_add rd) 0
           (relevance_terms rd companies (if incl then sectors else []) keywords story)"
    by (rule story_relevance_terms)
next
  assume pq: "parse_query query = (companies, sectors, keywords)"
  let ?kept = "filter (\<lambda>p. snd p \<ge> m)
             (map (\<lambda>s. (s, story_relevance rd companies sectors keywords incl s))
                (unique_stories storage))"
  let ?ranked = "sort_key (\<lambda>x. - snd x) ?kept"
  have 1: "search_by_query rd storage query limit incl m = slice_to limit ?ranked"
    using pq by (simp add: search_by_query_def score_stories_filter)
  have 2: "mset ?ranked = mset ?kept" by (rule sort_desc_props(1))
  have 3: "sorted_wrt (\<lambda>p q. snd p \<ge> snd q) ?ranked" by (rule sort_desc_props(2))
  have 4: "\<forall>r. filter (\<lambda>p. snd p = r) ?ranked = filter (\<lambda>p. snd p = r) ?kept"
    using sort_desc_props(3)[of _ ?kept] by blast
  have 5: "0 \<le> limit \<longrightarrow> slice_to limit ?ranked = take (nat limit) ?ranked"
    by (simp add: slice_to_def)
  show "\<exists>ranked.
         search_by_query rd storage query limit incl m = slice_to limit ranked
       \<and> mset ranked = mset ?kept
       \<and> sorted_wrt (\<lambda>p q. snd p \<ge> snd q) ranked
       \<and> (\<forall>r. filter (\<lambda>p. snd p = r) ranked = filter (\<lambda>p. snd p = r) ?kept)
       \<and> (0 \<le> limit \<longrightarrow> slice_to limit ranked = take (nat limit) ranked)"
    using 1 2 3 4 5 by (intro exI[of _ ?ranked] conjI)
qed

text \<open>
  The amended statement at a concrete input, one at which every sum is a double, so
  that no addition is rounded.
\<close>

theorem search_by_query_ranking_witness:
  "parse_query ''HDFC Bank news'' = ([''HDFCBANK'', ''HDFCBANK''], [''banking''], [''hdfc'', ''bank''])
   \<and> story_relevance exact [''HDFCBANK'', ''HDFCBANK''] [''banking''] [''hdfc'', ''bank''] True
        storyH = 3
   \<and> search_by_query exact \<lparr>unique_stories = [storyM, storyH]\<rparr> ''HDFC Bank news'' 10 True 0.5
       = [(storyH, 3)]"
proof -
  have pq: "parse_query ''HDFC Bank news'' =
      ([''HDFCBANK'', ''HDFCBANK''], [''banking''], [''hdfc'', ''bank''])"
    by (rule parse_samples)
  note t = search_by_query_ranking[THEN mp, OF pq, THEN conjunct1, THEN spec]
  have "story_relevance exact [''HDFCBANK'', ''HDFCBANK''] [''banking''] [''hdfc'', ''bank''] True
          storyH = 3"
    using t[of exact True storyH] by (simp add: relevance_samples)
  then show ?thesis using pq search_samples(1) by (intro conjI)
qed

text \<open>
  C5 as stated fails when \<open>include_sector_news\<close> is false: for the query "auto" the
  sector "automobile" occurs in an entity name of the story, so the relevance as
  claimed is 0.7, but the code adds nothing, scores the story 0 and does not return it
  at the threshold 0.5.
\<close>

theorem search_by_query_ranking_counterexample:
  "parse_query ''auto'' = ([], [''automobile''], [''auto''])
   \<and> foldl (fl_add exact) 0 (relevance_terms exact [] [''automobile''] [''auto''] storyM) = 0.7
   \<and> story_relevance exact [] [''automobile''] [''auto''] False storyM = 0
   \<and> search_by_query exact \<lparr>unique_stories = [storyM]\<rparr> ''auto'' 10 False 0.5 = []"
  using parse_samples(2) relevance_samples(2,3) search_samples(2) by (intro conjI)

section \<open>Deduplication agent: when \<open>process\<close> raises\<close>

text \<open>
  On embeddings of equal length the agent with numpy's shape check behaves as the
  agent with a total similarity; on a recorded embedding of another length the scan
  raises.
\<close>

lemma calculate_similarity_np_same:
  assumes "embedding a = Some v" "embedding e = Some w" "length w = length v"
  shows "calculate_similarity_np sim a e = calculate_similarity sim a e"
  using assms by (simp add: calculate_similarity_np_def calculate_similarity_def get_similarity_np_def)

lemma calculate_similarity_np_mismatch:
  assumes "embedding a = Some v" "embedding e = Some w" "length w \<noteq> length v"
  shows "calculate_similarity_np sim a e = Inl ValueError"
  using assms by (auto simp add: calculate_similarity_np_def get_similarity_np_def)

lemma find_loop_np_same:
  assumes "embedding new = Some v"
    and "\<forall>e\<in>set es. \<exists>w. embedding e = Some w \<and> length w = length v"
  shows "find_loop_np sim thr new es acc = find_loop sim thr new es acc"
  using assms(2)
proof (induction es arbitrary: acc)
  case Nil
  show ?case by simp
next
  case (Cons e es)
  obtain m d ids where acc: "acc = (m, d, ids)" by (cases acc)
  obtain w where w: "embedding e = Some w" "length w = length v" using Cons.prems by auto
  have c: "calculate_similarity_np sim new e = calculate_similarity sim new e"
    by (rule calculate_similarity_np_same[OF assms(1) w])
  have r: "\<forall>e\<in>set es. \<exists>w. embedding e = Some w \<and> length w = length v"
    using Cons.prems by simp
  show ?case unfolding acc by (simp add: c Cons.IH[OF r] split: sum.splits)
qed

lemma find_loop_np_raises:
  assumes "embedding new = Some v"
    and "\<forall>e\<in>set es. \<exists>w. embedding e = Some w"
    and "\<exists>e\<in>set es. length (the (embedding e)) \<noteq> length v"
  shows "find_loop_np sim thr new es acc = Inl ValueError"
  using assms(2,3)
proof (induction es arbitrary: acc)
  case Nil
  then show ?case by simp
next
  case (Cons e es)
  obtain m d ids where acc: "acc = (m, d, ids)" by (cases acc)
  obtain w where w: "embedding e = Some w" using Cons.prems(1) by auto
  show ?case
  proof (cases "length w = length v")
    case False
    have "calculate_similarity_np sim new e = Inl ValueError"
      by (rule calculate_similarity_np_mismatch[OF assms(1) w False])
    then show ?thesis unfolding acc by simp
  next
    case True
    have c: "calculate_similarity_np sim new e = Inr (sim v w)"
      using assms(1) w True by (simp add: calculate_similarity_np_def get_similarity_np_def)
    have r1: "\<forall>e\<in>set es. \<exists>w. embedding e = Some w" using Cons.prems(1) by simp
    have r2: "\<exists>e\<in>set es. length (the (embedding e)) \<noteq> length v"
      using Cons.prems(2) True w by auto
    show ?thesis unfolding acc by (simp add: c Cons.IH[OF r1 r2])
  qed
qed

lemma find_duplicates_np_same:
  assumes "embedding new = Some v"
    and "\<forall>e\<in>set (processed_articles agent). \<exists>w. embedding e = Some w \<and> length w = length v"
  shows "find_duplicates_np sim agent new = find_duplicates sim agent new"
  by (simp add: find_duplicates_np_def find_duplicates_def find_loop_np_same[OF assms])

lemma dedup_process_np_same:
  assumes "embedding article = Some v"
    and "\<forall>e\<in>set (processed_articles agent). \<exists>w. embedding e = Some w \<and> length w = length v"
  shows "dedup_process_np sim agent article = dedup_process sim agent article"
  by (simp add: dedup_process_np_def dedup_process_def find_duplicates_np_same[OF assms])

lemma find_duplicates_returns:
  assumes "embedding new = Some v"
    and "\<forall>e\<in>set (processed_articles agent). \<exists>w. embedding e = Some w"
  shows "\<exists>is_dup dup m ids. find_duplicates sim agent new = Inr (is_dup, dup, m, ids)"
proof (cases "processed_articles agent = []")
  case True
  then show ?thesis by (auto simp add: find_duplicates_def)
next
  case False
  from find_duplicates_scan[OF False assms, of sim] show ?thesis by blast
qed

text \<open>
  C8 (as amended).  Given that every recorded article has an embedding, \<open>process\<close>
  raises exactly when the article has no embedding or some recorded embedding differs
  in length from the article's; when it raises, the agent's state, and so the list of
  recorded articles, is unchanged; when it does not raise, the article is appended.
\<close>

theorem dedup_process_np_raises:
  assumes "\<forall>e\<in>set (processed_articles agent). embedding e \<noteq> None"
  shows "((\<exists>err. fst (dedup_process_np sim agent article) = Inl err) \<longleftrightarrow>
            embedding article = None
          \<or> (\<exists>e\<in>set (processed_articles agent).
                length (the (embedding e)) \<noteq> length (the (embedding article))))
       \<and> ((\<exists>err. fst (dedup_process_np sim agent article) = Inl err) \<longrightarrow>
            snd (dedup_process_np sim agent article) = agent)
       \<and> ((\<nexists>err. fst (dedup_process_np sim agent article) = Inl err) \<longrightarrow>
            (\<exists>a'. dedup_process_np sim agent article =
               (Inr a', agent\<lparr>processed_articles := processed_articles agent @ [a']\<rparr>)))"
proof (cases "embedding article")
  case None
  then show ?thesis by (simp add: dedup_process_np_def)
next
  case (Some v)
  have emb: "\<forall>e\<in>set (processed_articles agent). \<exists>w. embedding e = Some w"
    using assms by auto
  show ?thesis
  proof (cases "\<exists>e\<in>set (processed_articles agent). length (the (embedding e)) \<noteq> length v")
    case True
    then have ne: "processed_articles agent \<noteq> []" by auto
    have "find_loop_np sim (threshold agent) article (processed_articles agent) (0, None, [])
            = Inl ValueError"
      by (rule find_loop_np_raises[OF Some emb True])
    then have "find_duplicates_np sim agent article = Inl ValueError"
      using ne by (simp add: find_duplicates_np_def)
    then have "dedup_process_np sim agent article = (Inl ValueError, agent)"
      using Some by (simp add: dedup_process_np_def)
    then show ?thesis using Some True by simp
  next
    case False
    then have same: "\<forall>e\<in>set (processed_articles agent). \<exists>w. embedding e = Some w \<and> length w = length v"
      using emb by fastforce
    have eq: "dedup_process_np sim agent article = dedup_process sim agent article"
      by (rule dedup_process_np_same[OF Some same])
    from find_duplicates_returns[OF Some emb, of sim] obtain is_dup dup m ids where
      "find_duplicates sim agent article = Inr (is_dup, dup, m, ids)" by blast
    then have "\<exists>a'. dedup_process sim agent article =
               (Inr a', agent\<lparr>processed_articles := processed_articles agent @ [a']\<rparr>)"
      using Some by (simp add: dedup_process_def Let_def)
    then obtain a' where a': "dedup_process_np sim agent article =
               (Inr a', agent\<lparr>processed_articles := processed_articles agent @ [a']\<rparr>)"
      using eq by auto
    have nr: "\<nexists>err. fst (dedup_process_np sim agent article) = Inl err" using a' by simp
    show ?thesis
    proof (intro conjI)
      show "(\<exists>err. fst (dedup_process_np sim agent article) = Inl err) \<longleftrightarrow>
            embedding article = None
          \<or> (\<exists>e\<in>set (processed_articles agent).
                length (the (embedding e)) \<noteq> length (the (embedding article)))"
        using nr False Some by simp
      show "(\<exists>err. fst (dedup_process_np sim agent article) = Inl err) \<longrightarrow>
            snd (dedup_process_np sim agent article) = agent" using nr by simp
      show "(\<nexists>err. fst (dedup_process_np sim agent article) = Inl err) \<longrightarrow>
            (\<exists>a'. dedup_process_np sim agent article =
               (Inr a', agent\<lparr>processed_articles := processed_articles agent @ [a']\<rparr>))"
        using a' by blast
    qed
  qed
qed

text \<open>
  The amended statement at concrete inputs: an article with an embedding of the
  recorded length is recorded; \<open>process\<close> raises for an embedding of another length and
  for a missing embedding.
\<close>

theorem dedup_process_np_raises_witness:
  "embedding artA \<noteq> None
   \<and> fst (dedup_process_np get_similarity \<lparr>threshold = 0.7, processed_articles = [artA]\<rparr> artB)
       = Inr (artB\<lparr>is_duplicate := True, duplicate_of := Some ''a''\<rparr>)
   \<and> fst (dedup_process_np get_similarity \<lparr>threshold = 0.7, processed_articles = [artA]\<rparr> artS)
       = Inl ValueError
   \<and> fst (dedup_process_np get_similarity \<lparr>threshold = 0.7, processed_articles = [artA]\<rparr>
            (artB\<lparr>embedding := None\<rparr>)) = Inl ValueError"
proof -
  have h: "\<forall>e\<in>set (processed_articles \<lparr>threshold = 0.7, processed_articles = [artA]\<rparr>).
       embedding e \<noteq> None"
    by (simp add: artA_def)
  show ?thesis
    using dedup_process_np_raises [OF h, of get_similarity artB]
    by (simp add: dedup_process_np_def find_duplicates_np_def calculate_similarity_np_def
        get_similarity_np_def Let_def artA_def artB_def artS_def sims)
qed

text \<open>
  C8 as stated fails: article S has an embedding, of length 1, and the recorded article
  A has one of length 2; \<open>process\<close> raises.
\<close>

theorem dedup_process_np_raises_counterexample:
  "embedding artA \<noteq> None \<and> embedding artS \<noteq> None
   \<and> dedup_process_np get_similarity \<lparr>threshold = 0.85, processed_articles = [artA]\<rparr> artS
       = (Inl ValueError, \<lparr>threshold = 0.85, processed_articles = [artA]\<rparr>)"
  by (simp add: dedup_process_np_def find_duplicates_np_def calculate_similarity_np_def
      get_similarity_np_def artA_def artS_def)

end
